theory Spec2Isabelle
  imports Complex_Main "HOL-Library.AList"
begin

section \<open>Data model\<close>

text \<open>
  Python floats are modelled as \<^typ>\<open>real\<close> (no rounding, overflow or NaN), Python ints as
  \<^typ>\<open>int\<close>, \<open>Optional[t]\<close> as \<open>t option\<close>. The formatted error strings of the state
  machine are modelled as values of a datatype that keeps the numbers a message prints.
  Python exceptions that escape a call are the left summand of a sum type.
\<close>

subsection \<open>workload\_parser.py\<close>

datatype CommandType =
  ACT | RD | WR | PRE | PREA | REF | REFPB | PDN | SR | END_OF_SIMULATION

record Command =
  timestamp :: int
  command :: CommandType
  bank :: "int option"
  rank :: "int option"
  row :: "int option"
  column :: "int option"
  burst_length :: "int option"

text \<open>The simulator reads only the commands of a workload; its metadata is left out.\<close>

record Workload =
  commands :: "Command list"

subsection \<open>spec\_parser.py\<close>

record MemoryPowerSpec =
  idd0 :: real
  idd2n :: real
  idd2p :: real
  idd3n :: real
  idd3p :: real
  idd4r :: real
  idd4w :: real
  idd5b :: real
  idd6 :: real
  vdd :: real
  vddq :: real
  vddca :: real
  ipp :: real
  temperature :: real

text \<open>Field \<open>trc\<close> holds the value after \<open>__post_init__\<close>, which is never \<open>None\<close>.\<close>

record MemoryTimingSpec =
  tck :: real
  tras :: real
  trp :: real
  trcd :: real
  trfc :: real
  trfcpb :: "real option"
  trfi :: real
  twr :: real
  twtr :: real
  trrd :: real
  tfaw :: real
  trc :: real
  txp :: real
  txsdr :: real
  txsdll :: real

text \<open>\<open>MemoryTimingSpec.__post_init__\<close>: the row-cycle time defaults to \<open>tras + trp\<close>.\<close>

definition post_init_trc :: "real \<Rightarrow> real \<Rightarrow> real option \<Rightarrow> real" where
  "post_init_trc tras_v trp_v trc_opt =
     (case trc_opt of None \<Rightarrow> tras_v + trp_v | Some v \<Rightarrow> v)"

record ArchitectureSpec =
  nbr_of_ranks :: int
  nbr_of_banks :: int
  nbr_of_columns :: int
  nbr_of_rows :: int
  width :: int
  arch_burst_length :: int
  density :: int

record MemorySpec =
  power_spec :: MemoryPowerSpec
  timing :: MemoryTimingSpec
  architecture :: ArchitectureSpec

subsection \<open>state\_machine.py\<close>

datatype BankState = IDLE | ACTIVE | ACTIVE_PDN | PRE_PDN | REFRESHING

record BankStateInfo =
  state :: BankState
  open_row :: "int option"
  last_activate_time :: real
  last_precharge_time :: real
  last_read_time :: real
  last_write_time :: real
  last_powerdown_time :: real

definition BankStateInfo_init :: BankStateInfo where
  "BankStateInfo_init =
     \<lparr>state = IDLE, open_row = None, last_activate_time = 0, last_precharge_time = 0,
      last_read_time = 0, last_write_time = 0, last_powerdown_time = 0\<rparr>"

text \<open>
  The reason strings returned by the constraint checks. A violation message prints the
  elapsed time and the limit; both are kept.
\<close>

datatype err_msg =
    Bank_already_active
  | Bank_is_refreshing
  | tRC_violation real real
  | Bank_must_be_active_for_read
  | Bank_must_be_active_for_write
  | tRCD_violation real real
  | Bank_already_idle
  | tRAS_violation real real
  | tWR_violation real real
  | tREFI_violation real real
  | ACT_command_requires_row
  | REFPB_command_requires_bank

datatype py_exn = KeyError | ZeroDivisionError

type_synonym check_result = "bool \<times> err_msg option"

definition can_activate :: "MemorySpec \<Rightarrow> BankStateInfo \<Rightarrow> real \<Rightarrow> check_result" where
  "can_activate spec bank_info cur =
     (if state bank_info = ACTIVE then (False, Some Bank_already_active)
      else if state bank_info = REFRESHING then (False, Some Bank_is_refreshing)
      else if last_activate_time bank_info > 0
              \<and> cur - last_activate_time bank_info < trc (timing spec)
           then (False, Some (tRC_violation (cur - last_activate_time bank_info) (trc (timing spec))))
      else (True, None))"

definition can_read :: "MemorySpec \<Rightarrow> BankStateInfo \<Rightarrow> real \<Rightarrow> check_result" where
  "can_read spec bank_info cur =
     (if state bank_info \<noteq> ACTIVE then (False, Some Bank_must_be_active_for_read)
      else if cur - last_activate_time bank_info < trcd (timing spec)
           then (False, Some (tRCD_violation (cur - last_activate_time bank_info) (trcd (timing spec))))
      else (True, None))"

definition can_write :: "MemorySpec \<Rightarrow> BankStateInfo \<Rightarrow> real \<Rightarrow> check_result" where
  "can_write spec bank_info cur =
     (if state bank_info \<noteq> ACTIVE then (False, Some Bank_must_be_active_for_write)
      else if cur - last_activate_time bank_info < trcd (timing spec)
           then (False, Some (tRCD_violation (cur - last_activate_time bank_info) (trcd (timing spec))))
      else (True, None))"

definition can_precharge :: "MemorySpec \<Rightarrow> BankStateInfo \<Rightarrow> real \<Rightarrow> check_result" where
  "can_precharge spec bank_info cur =
     (if state bank_info = IDLE then (False, Some Bank_already_idle)
      else if state bank_info = REFRESHING then (False, Some Bank_is_refreshing)
      else if state bank_info = ACTIVE \<and> last_activate_time bank_info \<ge> 0
              \<and> cur - last_activate_time bank_info < tras (timing spec)
           then (False, Some (tRAS_violation (cur - last_activate_time bank_info) (tras (timing spec))))
      else if last_write_time bank_info > 0
              \<and> cur - last_write_time bank_info < twr (timing spec)
           then (False, Some (tWR_violation (cur - last_write_time bank_info) (twr (timing spec))))
      else (True, None))"

definition can_refresh :: "MemorySpec \<Rightarrow> real \<Rightarrow> real \<Rightarrow> check_result" where
  "can_refresh spec cur last_refresh =
     (if cur - last_refresh < trfi (timing spec)
      then (False, Some (tREFI_violation (cur - last_refresh) (trfi (timing spec))))
      else (True, None))"

text \<open>
  The dictionary \<open>banks\<close> is an association list in insertion order; its keys never change
  after construction. Mutating a \<open>BankStateInfo\<close> object in place is an update at its key.
\<close>

record DRAMStateMachine =
  banks :: "((int \<times> int) \<times> BankStateInfo) list"
  last_refresh_time :: real
  current_time :: real

definition DRAMStateMachine_init :: "MemorySpec \<Rightarrow> DRAMStateMachine" where
  "DRAMStateMachine_init spec =
     \<lparr>banks = concat (map (\<lambda>r. map (\<lambda>b. ((r, b), BankStateInfo_init))
                                  [0 .. nbr_of_banks (architecture spec) - 1])
                          [0 .. nbr_of_ranks (architecture spec) - 1]),
      last_refresh_time = - 1000000000,
      current_time = 0\<rparr>"

definition get_bank_info :: "DRAMStateMachine \<Rightarrow> int \<Rightarrow> int \<Rightarrow> py_exn + BankStateInfo" where
  "get_bank_info sm r b =
     (case map_of (banks sm) (r, b) of None \<Rightarrow> Inl KeyError | Some info \<Rightarrow> Inr info)"

definition set_bank_info :: "DRAMStateMachine \<Rightarrow> int \<Rightarrow> int \<Rightarrow> BankStateInfo \<Rightarrow> DRAMStateMachine" where
  "set_bank_info sm r b info = sm\<lparr>banks := AList.update (r, b) info (banks sm)\<rparr>"

definition update_time :: "DRAMStateMachine \<Rightarrow> real \<Rightarrow> DRAMStateMachine" where
  "update_time sm time_ns = sm\<lparr>current_time := time_ns\<rparr>"

type_synonym exec_result = "py_exn + (check_result \<times> DRAMStateMachine)"

definition execute_activate :: "MemorySpec \<Rightarrow> DRAMStateMachine \<Rightarrow> int \<Rightarrow> int \<Rightarrow> int \<Rightarrow> exec_result" where
  "execute_activate spec sm r b rw =
     (case get_bank_info sm r b of
        Inl e \<Rightarrow> Inl e
      | Inr bank_info \<Rightarrow>
          (case can_activate spec bank_info (current_time sm) of
             (False, error) \<Rightarrow> Inr ((False, error), sm)
           | (True, _) \<Rightarrow>
               Inr ((True, None),
                    set_bank_info sm r b
                      (bank_info\<lparr>state := ACTIVE, open_row := Some rw,
                                 last_activate_time := current_time sm\<rparr>))))"

definition execute_read :: "MemorySpec \<Rightarrow> DRAMStateMachine \<Rightarrow> int \<Rightarrow> int \<Rightarrow> exec_result" where
  "execute_read spec sm r b =
     (case get_bank_info sm r b of
        Inl e \<Rightarrow> Inl e
      | Inr bank_info \<Rightarrow>
          (case can_read spec bank_info (current_time sm) of
             (False, error) \<Rightarrow> Inr ((False, error), sm)
           | (True, _) \<Rightarrow>
               Inr ((True, None),
                    set_bank_info sm r b (bank_info\<lparr>last_read_time := current_time sm\<rparr>))))"

definition execute_write :: "MemorySpec \<Rightarrow> DRAMStateMachine \<Rightarrow> int \<Rightarrow> int \<Rightarrow> exec_result" where
  "execute_write spec sm r b =
     (case get_bank_info sm r b of
        Inl e \<Rightarrow> Inl e
      | Inr bank_info \<Rightarrow>
          (case can_write spec bank_info (current_time sm) of
             (False, error) \<Rightarrow> Inr ((False, error), sm)
           | (True, _) \<Rightarrow>
               Inr ((True, None),
                    set_bank_info sm r b (bank_info\<lparr>last_write_time := current_time sm\<rparr>))))"

definition execute_precharge :: "MemorySpec \<Rightarrow> DRAMStateMachine \<Rightarrow> int \<Rightarrow> int \<Rightarrow> exec_result" where
  "execute_precharge spec sm r b =
     (case get_bank_info sm r b of
        Inl e \<Rightarrow> Inl e
      | Inr bank_info \<Rightarrow>
          (case can_precharge spec bank_info (current_time sm) of
             (False, error) \<Rightarrow> Inr ((False, error), sm)
           | (True, _) \<Rightarrow>
               Inr ((True, None),
                    set_bank_info sm r b
                      (bank_info\<lparr>state := IDLE, open_row := None,
                                 last_precharge_time := current_time sm\<rparr>))))"

text \<open>The two loops of \<open>execute_refresh\<close> over \<open>banks.values()\<close>.\<close>

definition mark_refreshing :: "BankStateInfo \<Rightarrow> BankStateInfo" where
  "mark_refreshing bank_info =
     (if state bank_info = ACTIVE then bank_info\<lparr>state := REFRESHING\<rparr> else bank_info)"

definition finish_refreshing :: "BankStateInfo \<Rightarrow> BankStateInfo" where
  "finish_refreshing bank_info =
     (if state bank_info = REFRESHING then bank_info\<lparr>state := IDLE, open_row := None\<rparr>
      else bank_info)"

definition execute_refresh :: "MemorySpec \<Rightarrow> DRAMStateMachine \<Rightarrow> check_result \<times> DRAMStateMachine" where
  "execute_refresh spec sm =
     (case can_refresh spec (current_time sm) (last_refresh_time sm) of
        (False, error) \<Rightarrow> ((False, error), sm)
      | (True, _) \<Rightarrow>
          (let sm1 = sm\<lparr>banks := map (\<lambda>(k, info). (k, mark_refreshing info)) (banks sm)\<rparr>;
               sm2 = sm1\<lparr>last_refresh_time := current_time sm1\<rparr>;
               sm3 = sm2\<lparr>banks := map (\<lambda>(k, info). (k, finish_refreshing info)) (banks sm2)\<rparr>
           in ((True, None), sm3)))"

subsection \<open>power\_calculator.py\<close>

record PowerResult =
  core_energy :: real
  interface_energy :: real
  total_energy :: real
  average_power :: real
  simulation_time :: real
  activation_energy :: real
  read_energy :: real
  write_energy :: real
  precharge_energy :: real
  refresh_energy :: real
  background_active_energy :: real
  background_precharge_energy :: real
  powerdown_energy :: real
  termination_energy :: real
  dynamic_io_energy :: real

definition PowerResult_init :: PowerResult where
  "PowerResult_init =
     \<lparr>core_energy = 0, interface_energy = 0, total_energy = 0, average_power = 0,
      simulation_time = 0, activation_energy = 0, read_energy = 0, write_energy = 0,
      precharge_energy = 0, refresh_energy = 0, background_active_energy = 0,
      background_precharge_energy = 0, powerdown_energy = 0, termination_energy = 0,
      dynamic_io_energy = 0\<rparr>"

text \<open>
  The calculator reads the state machine it was constructed with; the model passes that
  state machine to the one method that reads it. The unused list \<open>state_history\<close> is
  left out.
\<close>

record PowerCalculator =
  result :: PowerResult
  last_state_time :: real
  refresh_count :: int
  pc_last_refresh_time :: real
  odt_resistance :: real
  dq_capacitance :: real
  switching_activity :: real

definition PowerCalculator_init :: PowerCalculator where
  "PowerCalculator_init =
     \<lparr>result = PowerResult_init, last_state_time = 0, refresh_count = 0,
      pc_last_refresh_time = - 1000000000, odt_resistance = 120, dq_capacitance = 2,
      switching_activity = 1 / 2\<rparr>"

definition calculate_activation_power :: "MemorySpec \<Rightarrow> real \<Rightarrow> real" where
  "calculate_activation_power spec duration_ns =
     (idd0 (power_spec spec) - idd3n (power_spec spec)) * vdd (power_spec spec)
       * duration_ns / 1000"

text \<open>\<open>1.0 / (tck_ns * 2.0)\<close> raises \<open>ZeroDivisionError\<close> when the clock period is zero.\<close>

definition calculate_io_power_read :: "MemorySpec \<Rightarrow> PowerCalculator \<Rightarrow> int \<Rightarrow> real \<Rightarrow> py_exn + real" where
  "calculate_io_power_read spec pc bl duration_ns =
     (if tck (timing spec) * 2 = 0 then Inl ZeroDivisionError
      else
        (let energy_per_transition_pj = (1 / 2) * dq_capacitance pc * (vddq (power_spec spec)) ^ 2;
             n_transitions = real_of_int (bl * width (architecture spec)) * switching_activity pc
         in Inr (energy_per_transition_pj * n_transitions / 1000)))"

definition calculate_io_power_write :: "MemorySpec \<Rightarrow> PowerCalculator \<Rightarrow> int \<Rightarrow> real \<Rightarrow> py_exn + real" where
  "calculate_io_power_write spec pc bl duration_ns = calculate_io_power_read spec pc bl duration_ns"

text \<open>\<open>if burst_length:\<close> holds for an integer that is neither \<open>None\<close> nor zero.\<close>

definition truthy_int :: "int option \<Rightarrow> bool" where
  "truthy_int v = (case v of None \<Rightarrow> False | Some n \<Rightarrow> n \<noteq> 0)"

definition calculate_read_power :: "MemorySpec \<Rightarrow> PowerCalculator \<Rightarrow> real \<Rightarrow> int option \<Rightarrow> py_exn + real" where
  "calculate_read_power spec pc duration_ns bl =
     (let energy_nj = (idd4r (power_spec spec) - idd3n (power_spec spec)) * vdd (power_spec spec)
                        * duration_ns / 1000
      in if truthy_int bl then
           (case calculate_io_power_read spec pc (the bl) duration_ns of
              Inl e \<Rightarrow> Inl e
            | Inr io_energy \<Rightarrow> Inr (energy_nj + io_energy))
         else Inr energy_nj)"

definition calculate_write_power :: "MemorySpec \<Rightarrow> PowerCalculator \<Rightarrow> real \<Rightarrow> int option \<Rightarrow> py_exn + real" where
  "calculate_write_power spec pc duration_ns bl =
     (let energy_nj = (idd4w (power_spec spec) - idd3n (power_spec spec)) * vdd (power_spec spec)
                        * duration_ns / 1000
      in if truthy_int bl then
           (case calculate_io_power_write spec pc (the bl) duration_ns of
              Inl e \<Rightarrow> Inl e
            | Inr io_energy \<Rightarrow> Inr (energy_nj + io_energy))
         else Inr energy_nj)"

definition calculate_precharge_power :: "MemorySpec \<Rightarrow> real \<Rightarrow> real" where
  "calculate_precharge_power spec duration_ns =
     (idd0 (power_spec spec) - idd3n (power_spec spec)) * vdd (power_spec spec)
       * duration_ns / 1000"

definition calculate_refresh_power :: "MemorySpec \<Rightarrow> real \<Rightarrow> real" where
  "calculate_refresh_power spec duration_ns =
     idd5b (power_spec spec) * vdd (power_spec spec) * duration_ns / 1000"

definition calculate_background_power :: "MemorySpec \<Rightarrow> real \<Rightarrow> real \<Rightarrow> real \<Rightarrow> real \<Rightarrow> real \<times> real" where
  "calculate_background_power spec active_stby_time_ns active_pdn_time_ns
       precharge_stby_time_ns precharge_pdn_time_ns =
     (let energy_active_stby_nj =
            idd3n (power_spec spec) * vdd (power_spec spec) * active_stby_time_ns / 1000;
          energy_active_pdn_nj =
            idd3p (power_spec spec) * vdd (power_spec spec) * active_pdn_time_ns / 1000;
          energy_precharge_stby_nj =
            idd2n (power_spec spec) * vdd (power_spec spec) * precharge_stby_time_ns / 1000;
          energy_precharge_pdn_nj =
            idd2p (power_spec spec) * vdd (power_spec spec) * precharge_pdn_time_ns / 1000
      in (energy_active_stby_nj + energy_active_pdn_nj,
          energy_precharge_stby_nj + energy_precharge_pdn_nj))"

definition calculate_powerdown_power :: "MemorySpec \<Rightarrow> real \<Rightarrow> bool \<Rightarrow> real" where
  "calculate_powerdown_power spec duration_ns is_active_pdn =
     (if is_active_pdn then idd3p (power_spec spec) else idd2p (power_spec spec))
       * vdd (power_spec spec) * duration_ns / 1000"

text \<open>
  \<open>odt_resistance\<close> is 120.0 in every calculator the program constructs, so the division
  by it does not raise there; the model writes the division of \<^typ>\<open>real\<close>.
\<close>

definition calculate_termination_power :: "MemorySpec \<Rightarrow> PowerCalculator \<Rightarrow> real \<Rightarrow> bool \<Rightarrow> real" where
  "calculate_termination_power spec pc duration_ns is_read =
     (let v_term = vddq (power_spec spec) / 2;
          power_mw = (v_term ^ 2 / odt_resistance pc) * 1000;
          duty_cycle = (if is_read then 1 / 2 else 1 / 2)
      in power_mw * duration_ns * duty_cycle / 1000)"

text \<open>\<open>burst_length or self.spec.architecture.burst_length\<close>.\<close>

definition burst_or_default :: "MemorySpec \<Rightarrow> int option \<Rightarrow> int option" where
  "burst_or_default spec bl =
     (if truthy_int bl then bl else Some (arch_burst_length (architecture spec)))"

text \<open>\<open>if next_time_ns\<close> holds for a float that is neither \<open>None\<close> nor \<open>0.0\<close>.\<close>

definition command_duration :: "MemorySpec \<Rightarrow> real \<Rightarrow> real option \<Rightarrow> real" where
  "command_duration spec current_time_ns next_time_ns =
     (case next_time_ns of
        None \<Rightarrow> tck (timing spec)
      | Some n \<Rightarrow> if n \<noteq> 0 then n - current_time_ns else tck (timing spec))"

definition process_command ::
  "MemorySpec \<Rightarrow> PowerCalculator \<Rightarrow> CommandType \<Rightarrow> int \<Rightarrow> int \<Rightarrow> real \<Rightarrow> real option \<Rightarrow>
   int option \<Rightarrow> int option \<Rightarrow> int option \<Rightarrow> py_exn + (real \<times> PowerCalculator)" where
  "process_command spec pc cmd_type r b current_time_ns next_time_ns rw col bl =
     (let duration_ns = command_duration spec current_time_ns next_time_ns;
          res = result pc
      in
      if cmd_type = ACT then
        (let act_energy = calculate_activation_power spec (tras (timing spec))
         in Inr (0 + act_energy,
                 pc\<lparr>result := res\<lparr>activation_energy := activation_energy res + act_energy\<rparr>\<rparr>))
      else if cmd_type = RD then
        (case calculate_read_power spec pc duration_ns (burst_or_default spec bl) of
           Inl e \<Rightarrow> Inl e
         | Inr rd_energy \<Rightarrow>
             (let term_energy = calculate_termination_power spec pc duration_ns True
              in Inr (0 + rd_energy + term_energy,
                      pc\<lparr>result := res\<lparr>read_energy := read_energy res + rd_energy,
                                        termination_energy := termination_energy res + term_energy\<rparr>\<rparr>)))
      else if cmd_type = WR then
        (case calculate_write_power spec pc duration_ns (burst_or_default spec bl) of
           Inl e \<Rightarrow> Inl e
         | Inr wr_energy \<Rightarrow>
             (let term_energy = calculate_termination_power spec pc duration_ns False
              in Inr (0 + wr_energy + term_energy,
                      pc\<lparr>result := res\<lparr>write_energy := write_energy res + wr_energy,
                                        termination_energy := termination_energy res + term_energy\<rparr>\<rparr>)))
      else if cmd_type = PRE \<or> cmd_type = PREA then
        (let pre_energy = calculate_precharge_power spec (trp (timing spec))
         in Inr (0 + pre_energy,
                 pc\<lparr>result := res\<lparr>precharge_energy := precharge_energy res + pre_energy\<rparr>\<rparr>))
      else if cmd_type = REF \<or> cmd_type = REFPB then
        (let trfc_v = (case trfcpb (timing spec) of
                         Some v \<Rightarrow> if cmd_type = REFPB \<and> v \<noteq> 0 then v else trfc (timing spec)
                       | None \<Rightarrow> trfc (timing spec));
             ref_energy = calculate_refresh_power spec trfc_v
         in Inr (0 + ref_energy,
                 pc\<lparr>result := res\<lparr>refresh_energy := refresh_energy res + ref_energy\<rparr>,
                    refresh_count := refresh_count pc + 1,
                    pc_last_refresh_time := current_time_ns\<rparr>))
      else Inr (0, pc))"

text \<open>The counting loop of \<open>accumulate_background_power\<close> over \<open>banks.items()\<close>.\<close>

definition count_state :: "DRAMStateMachine \<Rightarrow> BankState \<Rightarrow> int" where
  "count_state sm st = int (length (filter (\<lambda>(k, info). state info = st) (banks sm)))"

definition accumulate_background_power ::
  "MemorySpec \<Rightarrow> DRAMStateMachine \<Rightarrow> PowerCalculator \<Rightarrow> real \<Rightarrow> real \<Rightarrow> PowerCalculator" where
  "accumulate_background_power spec sm pc start_time_ns end_time_ns =
     (let duration_ns = end_time_ns - start_time_ns in
      if duration_ns \<le> 0 then pc
      else
        (let n_active_stby = count_state sm ACTIVE;
             n_active_pdn = count_state sm ACTIVE_PDN;
             n_precharge_stby = count_state sm IDLE;
             n_precharge_pdn = count_state sm PRE_PDN;
             n_total = nbr_of_ranks (architecture spec) * nbr_of_banks (architecture spec);
             times =
               (if n_total > 0 then
                  (duration_ns * (real_of_int n_active_stby / real_of_int n_total),
                   duration_ns * (real_of_int n_active_pdn / real_of_int n_total),
                   duration_ns * (real_of_int n_precharge_stby / real_of_int n_total),
                   duration_ns * (real_of_int n_precharge_pdn / real_of_int n_total))
                else (0, 0, duration_ns, 0))
         in (case times of
               (active_stby_time, active_pdn_time, precharge_stby_time, precharge_pdn_time) \<Rightarrow>
                 (case calculate_background_power spec active_stby_time active_pdn_time
                         precharge_stby_time precharge_pdn_time of
                    (bg_active, bg_precharge) \<Rightarrow>
                      pc\<lparr>result := (result pc)
                           \<lparr>background_active_energy :=
                              background_active_energy (result pc) + bg_active,
                            background_precharge_energy :=
                              background_precharge_energy (result pc) + bg_precharge\<rparr>\<rparr>))))"

definition finalize :: "PowerCalculator \<Rightarrow> real \<Rightarrow> PowerCalculator" where
  "finalize pc simulation_time_ns =
     (let r1 = (result pc)\<lparr>simulation_time := simulation_time_ns\<rparr>;
          r2 = r1\<lparr>core_energy :=
                     activation_energy r1 + read_energy r1 + write_energy r1
                     + precharge_energy r1 + refresh_energy r1 + background_active_energy r1
                     + background_precharge_energy r1 + powerdown_energy r1\<rparr>;
          r3 = r2\<lparr>interface_energy := termination_energy r2 + dynamic_io_energy r2\<rparr>;
          r4 = r3\<lparr>total_energy := core_energy r3 + interface_energy r3\<rparr>;
          r5 = r4\<lparr>average_power :=
                     (if simulation_time_ns > 0
                      then (total_energy r4 / simulation_time_ns) * 1000 else 0)\<rparr>
      in pc\<lparr>result := r5\<rparr>)"

subsection \<open>simulator.py\<close>

text \<open>
  The entries of the driver's error list: the fatal empty-trace message, and
  \<open>"Command <kind> at <timestamp> cycles: <reason>"\<close> for a rejected command.
\<close>

datatype sim_error =
    No_commands_in_workload
  | Command_error CommandType int "err_msg option"

record Simulator =
  state_machine :: DRAMStateMachine
  power_calculator :: PowerCalculator
  errors :: "sim_error list"
  warnings :: "string list"

definition Simulator_init :: "MemorySpec \<Rightarrow> Simulator" where
  "Simulator_init spec =
     \<lparr>state_machine = DRAMStateMachine_init spec, power_calculator = PowerCalculator_init,
      errors = [], warnings = []\<rparr>"

text \<open>
  The loop of the \<open>PREA\<close> branch over \<open>range(nbr_of_banks)\<close>, carrying \<open>success\<close> and
  \<open>error_msg\<close>. A \<open>KeyError\<close> of a bank leaves the loop at once.
\<close>

fun precharge_all ::
  "MemorySpec \<Rightarrow> int \<Rightarrow> int list \<Rightarrow> check_result \<Rightarrow> DRAMStateMachine \<Rightarrow> exec_result" where
  "precharge_all spec r [] acc sm = Inr (acc, sm)"
| "precharge_all spec r (b # bs) acc sm =
     (case execute_precharge spec sm r b of
        Inl e \<Rightarrow> Inl e
      | Inr ((s, e), sm') \<Rightarrow>
          precharge_all spec r bs (if \<not> s then (False, e) else acc) sm')"

definition execute_command ::
  "MemorySpec \<Rightarrow> DRAMStateMachine \<Rightarrow> Command \<Rightarrow> int \<Rightarrow> int \<Rightarrow> exec_result" where
  "execute_command spec sm cmd r b =
     (if command cmd = ACT then
        (case row cmd of
           None \<Rightarrow> Inr ((False, Some ACT_command_requires_row), sm)
         | Some rw \<Rightarrow> execute_activate spec sm r b rw)
      else if command cmd = RD then execute_read spec sm r b
      else if command cmd = WR then execute_write spec sm r b
      else if command cmd = PRE then execute_precharge spec sm r b
      else if command cmd = PREA then
        precharge_all spec r [0 .. nbr_of_banks (architecture spec) - 1] (True, None) sm
      else if command cmd = REF then Inr (execute_refresh spec sm)
      else if command cmd = REFPB then
        (case bank cmd of
           None \<Rightarrow> Inr ((False, Some REFPB_command_requires_bank), sm)
         | Some _ \<Rightarrow> Inr (execute_refresh spec sm))
      else Inr ((True, None), sm))"

text \<open>
  The \<open>for\<close> loop of \<open>simulate\<close> over the sorted commands, as a recursion over the
  commands still to run; it carries \<open>last_time_ns\<close> and the simulator, and returns both
  when the loop ends (by exhaustion or by the \<open>break\<close> of \<open>END_OF_SIMULATION\<close>).
\<close>

fun simulate_loop ::
  "MemorySpec \<Rightarrow> Command list \<Rightarrow> real \<Rightarrow> Simulator \<Rightarrow> py_exn + (real \<times> Simulator)" where
  "simulate_loop spec [] last_time_ns sim = Inr (last_time_ns, sim)"
| "simulate_loop spec (cmd # rest) last_time_ns sim =
     (let tck_ns = tck (timing spec);
          current_time_ns = real_of_int (timestamp cmd) * tck_ns
      in
      if command cmd = END_OF_SIMULATION then
        Inr (current_time_ns,
             sim\<lparr>power_calculator :=
                   accumulate_background_power spec (state_machine sim) (power_calculator sim)
                     last_time_ns current_time_ns\<rparr>)
      else
        (let next_time_ns =
               (case rest of
                  nxt # _ \<Rightarrow> real_of_int (timestamp nxt) * tck_ns
                | [] \<Rightarrow> current_time_ns + tck_ns);
             pc1 = (if current_time_ns > last_time_ns
                    then accumulate_background_power spec (state_machine sim)
                           (power_calculator sim) last_time_ns current_time_ns
                    else power_calculator sim);
             sm1 = update_time (state_machine sim) current_time_ns;
             r = (case rank cmd of Some v \<Rightarrow> v | None \<Rightarrow> 0);
             b = (case bank cmd of Some v \<Rightarrow> v | None \<Rightarrow> 0)
         in
         (case execute_command spec sm1 cmd r b of
            Inl e \<Rightarrow> Inl e
          | Inr ((success, error), sm2) \<Rightarrow>
              if \<not> success then
                simulate_loop spec rest current_time_ns
                  (sim\<lparr>state_machine := sm2, power_calculator := pc1,
                       errors := errors sim @ [Command_error (command cmd) (timestamp cmd) error]\<rparr>)
              else
                (case process_command spec pc1 (command cmd) r b current_time_ns
                        (Some next_time_ns) (row cmd) (column cmd) (burst_length cmd) of
                   Inl e \<Rightarrow> Inl e
                 | Inr (energy, pc2) \<Rightarrow>
                     simulate_loop spec rest current_time_ns
                       (sim\<lparr>state_machine := sm2,
                            power_calculator :=
                              pc2\<lparr>result := (result pc2)
                                     \<lparr>core_energy := core_energy (result pc2) + energy\<rparr>\<rparr>\<rparr>)))))"

text \<open>
  \<open>Simulator.simulate\<close>. The returned \<open>PowerResult\<close> is the calculator's own object, so
  the model returns the simulator; \<open>sim_result\<close> reads the result off it.
\<close>

definition simulate :: "MemorySpec \<Rightarrow> Simulator \<Rightarrow> Workload \<Rightarrow> py_exn + Simulator" where
  "simulate spec sim workload =
     (let sim0 = sim\<lparr>errors := [], warnings := []\<rparr> in
      if commands workload = [] then
        Inr (sim0\<lparr>errors := errors sim0 @ [No_commands_in_workload]\<rparr>)
      else
        (let sorted_commands = sort_key timestamp (commands workload) in
         case simulate_loop spec sorted_commands 0 sim0 of
           Inl e \<Rightarrow> Inl e
         | Inr (last_time_ns, sim1) \<Rightarrow>
             (let final_time_ns =
                    (if last_time_ns > 0 then last_time_ns
                     else real_of_int (timestamp (last sorted_commands)) * tck (timing spec))
              in Inr (sim1\<lparr>power_calculator :=
                             finalize (power_calculator sim1) final_time_ns\<rparr>))))"

definition sim_result :: "Simulator \<Rightarrow> PowerResult" where
  "sim_result sim = result (power_calculator sim)"

text \<open>A run as the program's callers make it: a new simulator, one call of \<open>simulate\<close>.\<close>

definition run :: "MemorySpec \<Rightarrow> Workload \<Rightarrow> py_exn + Simulator" where
  "run spec workload = simulate spec (Simulator_init spec) workload"

section \<open>Scenarios and predicates used by the properties\<close>

text \<open>The datasheet of the repository's test fixtures (DDR5, one rank of four banks).\<close>

definition example_spec :: MemorySpec where
  "example_spec =
     \<lparr>power_spec =
        \<lparr>idd0 = 51, idd2n = 35, idd2p = 25, idd3n = 46, idd3p = 15, idd4r = 146, idd4w = 120,
         idd5b = 80, idd6 = 3, vdd = 11 / 10, vddq = 11 / 10, vddca = 11 / 10, ipp = 1 / 2,
         temperature = 50\<rparr>,
      timing =
        \<lparr>tck = 312 / 1000, tras = 32, trp = 1375 / 100, trcd = 1375 / 100, trfc = 280,
         trfcpb = None, trfi = 7800, twr = 15, twtr = 75 / 10, trrd = 47 / 10,
         tfaw = 1375 / 100, trc = post_init_trc 32 (1375 / 100) None, txp = 5, txsdr = 70,
         txsdll = 512\<rparr>,
      architecture =
        \<lparr>nbr_of_ranks = 1, nbr_of_banks = 4, nbr_of_columns = 1024, nbr_of_rows = 65536,
         width = 64, arch_burst_length = 16, density = 16\<rparr>\<rparr>"

definition mk_command :: "int \<Rightarrow> CommandType \<Rightarrow> Command" where
  "mk_command t c =
     \<lparr>timestamp = t, command = c, bank = None, rank = Some 0, row = None, column = None,
      burst_length = None\<rparr>"

definition refresh_trace :: Workload where
  "refresh_trace = \<lparr>commands = [mk_command 0 REF, mk_command 10000 END_OF_SIMULATION]\<rparr>"

text \<open>What a state-machine call reported, and the state machine it left.\<close>

definition outcome :: "exec_result \<Rightarrow> py_exn + check_result" where
  "outcome res = map_sum id fst res"

definition state_after :: "exec_result \<Rightarrow> DRAMStateMachine" where
  "state_after res = snd (projr res)"

text \<open>Bank (0, 0) of the example device is activated at 0 ns and precharged at 32 ns.\<close>

definition sm_start :: DRAMStateMachine where
  "sm_start = DRAMStateMachine_init example_spec"

definition sm_activated :: DRAMStateMachine where
  "sm_activated = state_after (execute_activate example_spec (update_time sm_start 0) 0 0 512)"

definition sm_precharged :: DRAMStateMachine where
  "sm_precharged = state_after (execute_precharge example_spec (update_time sm_activated 32) 0 0)"

text \<open>No bank is in a power-down state.\<close>

definition no_powerdown :: "DRAMStateMachine \<Rightarrow> bool" where
  "no_powerdown sm \<longleftrightarrow>
     (\<forall>k info. (k, info) \<in> set (banks sm) \<longrightarrow> state info \<noteq> ACTIVE_PDN \<and> state info \<noteq> PRE_PDN)"

text \<open>
  The state machines a driver can produce: it constructs one, advances its clock and
  dispatches commands to it.
\<close>

inductive reachable :: "MemorySpec \<Rightarrow> DRAMStateMachine \<Rightarrow> bool" for spec :: MemorySpec where
  reach_init: "reachable spec (DRAMStateMachine_init spec)"
| reach_time: "reachable spec sm \<Longrightarrow> reachable spec (update_time sm t)"
| reach_exec: "reachable spec sm \<Longrightarrow> execute_command spec sm cmd r b = Inr (res, sm')
                 \<Longrightarrow> reachable spec sm'"

definition loop_inv :: "MemorySpec \<Rightarrow> Simulator \<Rightarrow> bool" where
  "loop_inv spec sim \<longleftrightarrow>
     reachable spec (state_machine sim) \<and> powerdown_energy (result (power_calculator sim)) = 0"

text \<open>A trace of a power-down entry and a self-refresh entry.\<close>

definition pdn_trace :: Workload where
  "pdn_trace = \<lparr>commands = [mk_command 0 PDN, mk_command 10 SR, mk_command 100 END_OF_SIMULATION]\<rparr>"

text \<open>The bank is opened again at 40 ns, closed at 80 ns; or written at 20 ns.\<close>

definition sm_reopened :: DRAMStateMachine where
  "sm_reopened = state_after (execute_activate example_spec (update_time sm_precharged 40) 0 0 7)"

definition sm_reclosed :: DRAMStateMachine where
  "sm_reclosed = state_after (execute_precharge example_spec (update_time sm_reopened 80) 0 0)"

definition sm_written :: DRAMStateMachine where
  "sm_written = state_after (execute_write example_spec (update_time sm_activated 20) 0 0)"

text \<open>
  A datasheet with no row-to-column delay and a write recovery of 50 ns: bank (0, 0) is
  activated and written at 0 ns.
\<close>

definition slow_write_spec :: MemorySpec where
  "slow_write_spec = example_spec\<lparr>timing := (timing example_spec)\<lparr>trcd := 0, twr := 50\<rparr>\<rparr>"

definition sw_start :: DRAMStateMachine where
  "sw_start = DRAMStateMachine_init slow_write_spec"

definition sw_activated :: DRAMStateMachine where
  "sw_activated = state_after (execute_activate slow_write_spec (update_time sw_start 0) 0 0 512)"

definition sw_written :: DRAMStateMachine where
  "sw_written = state_after (execute_write slow_write_spec (update_time sw_activated 0) 0 0)"

text \<open>
  The dynamic I/O energy of a burst in nJ, written from the specification: the energy per
  bit transition \<open>0.5 * C_DQ * V_IO\<^sup>2\<close> (pJ) times the number of transitions
  \<open>burst_length * data_width * switching_activity\<close>, divided by 1000.
\<close>

definition io_energy :: "MemorySpec \<Rightarrow> PowerCalculator \<Rightarrow> int \<Rightarrow> real" where
  "io_energy spec pc n =
     (1 / 2) * dq_capacitance pc * (vddq (power_spec spec)) ^ 2
       * (real_of_int n * real_of_int (width (architecture spec)) * switching_activity pc) / 1000"

text \<open>
  The report of the precharge-all loop over the banks \<open>bs\<close>, started with \<open>acc\<close>: the report
  of the last bank of \<open>bs\<close> whose own precharge is rejected, or \<open>acc\<close> when none is.
\<close>

definition last_failure :: "MemorySpec \<Rightarrow> DRAMStateMachine \<Rightarrow> int \<Rightarrow> int list \<Rightarrow> check_result \<Rightarrow> check_result \<Rightarrow> bool" where
  "last_failure spec sm r bs acc res \<longleftrightarrow>
     (\<exists>pre b post. bs = pre @ b # post \<and> fst res = False
        \<and> outcome (execute_precharge spec sm r b) = Inr res
        \<and> (\<forall>b' \<in> set post. outcome (execute_precharge spec sm r b') = Inr (True, None)))
     \<or> (res = acc \<and> (\<forall>b' \<in> set bs. outcome (execute_precharge spec sm r b') = Inr (True, None)))"

text \<open>Bank (0, 0) is activated at cycle 0; a precharge-all follows at cycle 150.\<close>

definition prea_trace :: Workload where
  "prea_trace =
     \<lparr>commands = [(mk_command 0 ACT)\<lparr>bank := Some 0, row := Some 512\<rparr>, mk_command 150 PREA,
                  mk_command 1000 END_OF_SIMULATION]\<rparr>"

text \<open>The example datasheet with a refresh interval of two seconds.\<close>

definition long_refi_spec :: MemorySpec where
  "long_refi_spec = example_spec\<lparr>timing := (timing example_spec)\<lparr>trfi := 2000000000\<rparr>\<rparr>"

text \<open>
  Bank (0, 0) is activated, precharged and activated again, from cycle 0 and from cycle 1.
\<close>

definition bank0_command :: "int \<Rightarrow> CommandType \<Rightarrow> int option \<Rightarrow> Command" where
  "bank0_command t c rw = (mk_command t c)\<lparr>bank := Some 0, row := rw\<rparr>"

definition reactivate_trace :: Workload where
  "reactivate_trace =
     \<lparr>commands = [bank0_command 0 ACT (Some 512), bank0_command 103 PRE None,
                  bank0_command 129 ACT (Some 7)]\<rparr>"

definition reactivate_trace_shifted :: Workload where
  "reactivate_trace_shifted =
     \<lparr>commands = [bank0_command 1 ACT (Some 512), bank0_command 104 PRE None,
                  bank0_command 130 ACT (Some 7)]\<rparr>"

text \<open>The timestamps that the entries of an error list print, in the order of the list.\<close>

definition error_timestamps :: "sim_error list \<Rightarrow> int list" where
  "error_timestamps es =
     concat (map (\<lambda>e. case e of Command_error c t m \<Rightarrow> [t] | No_commands_in_workload \<Rightarrow> []) es)"

text \<open>
  The commands of a list that the loop dispatches to the state machine: those before the
  first end-of-simulation marker.
\<close>

definition dispatched :: "Command list \<Rightarrow> Command list" where
  "dispatched cs = takeWhile (\<lambda>c. command c \<noteq> END_OF_SIMULATION) cs"

text \<open>A read at cycle 20 listed before a write at cycle 10, both on the idle bank (0, 0).\<close>

definition out_of_order_trace :: Workload where
  "out_of_order_trace = \<lparr>commands = [bank0_command 20 RD None, bank0_command 10 WR None]\<rparr>"

section \<open>Properties\<close>

subsection \<open>Evaluating the scenarios\<close>

lemma upto_0_3: "[0 .. 3 :: int] = [0, 1, 2, 3]"
  by (simp add: upto_rec1)

lemma sm_start_eq:
  "sm_start =
     \<lparr>banks = [((0, 0), BankStateInfo_init), ((0, 1), BankStateInfo_init),
               ((0, 2), BankStateInfo_init), ((0, 3), BankStateInfo_init)],
      last_refresh_time = - 1000000000, current_time = 0\<rparr>"
  by (simp add: sm_start_def DRAMStateMachine_init_def example_spec_def upto_0_3)

lemma sm_activated_run:
  "execute_activate example_spec (update_time sm_start 0) 0 0 512 =
     Inr ((True, None),
       \<lparr>banks = [((0, 0), BankStateInfo_init\<lparr>state := ACTIVE, open_row := Some 512\<rparr>),
                 ((0, 1), BankStateInfo_init), ((0, 2), BankStateInfo_init),
                 ((0, 3), BankStateInfo_init)],
        last_refresh_time = - 1000000000, current_time = 0\<rparr>)"
  by (simp add: sm_start_eq execute_activate_def get_bank_info_def update_time_def
      can_activate_def BankStateInfo_init_def set_bank_info_def)

lemma sm_activated_eq:
  "sm_activated =
     \<lparr>banks = [((0, 0), BankStateInfo_init\<lparr>state := ACTIVE, open_row := Some 512\<rparr>),
               ((0, 1), BankStateInfo_init), ((0, 2), BankStateInfo_init),
               ((0, 3), BankStateInfo_init)],
      last_refresh_time = - 1000000000, current_time = 0\<rparr>"
  by (simp add: sm_activated_def state_after_def sm_activated_run)

lemma sm_precharged_run:
  "execute_precharge example_spec (update_time sm_activated 32) 0 0 =
     Inr ((True, None),
       \<lparr>banks = [((0, 0), BankStateInfo_init\<lparr>last_precharge_time := 32\<rparr>),
                 ((0, 1), BankStateInfo_init), ((0, 2), BankStateInfo_init),
                 ((0, 3), BankStateInfo_init)],
        last_refresh_time = - 1000000000, current_time = 32\<rparr>)"
  by (simp add: sm_activated_eq execute_precharge_def get_bank_info_def update_time_def
      can_precharge_def BankStateInfo_init_def set_bank_info_def example_spec_def)

lemma sm_precharged_eq:
  "sm_precharged =
     \<lparr>banks = [((0, 0), BankStateInfo_init\<lparr>last_precharge_time := 32\<rparr>),
               ((0, 1), BankStateInfo_init), ((0, 2), BankStateInfo_init),
               ((0, 3), BankStateInfo_init)],
      last_refresh_time = - 1000000000, current_time = 32\<rparr>"
  by (simp add: sm_precharged_def state_after_def sm_precharged_run)

subsection \<open>Counters that a step leaves alone\<close>

lemma refresh_energy_accumulate [simp]:
  "refresh_energy (result (accumulate_background_power spec sm pc a b)) = refresh_energy (result pc)"
  by (simp add: accumulate_background_power_def Let_def split: prod.splits)

lemma refresh_energy_finalize [simp]:
  "refresh_energy (result (finalize pc t)) = refresh_energy (result pc)"
  by (simp add: finalize_def Let_def)

lemma powerdown_energy_accumulate [simp]:
  "powerdown_energy (result (accumulate_background_power spec sm pc a b)) =
     powerdown_energy (result pc)"
  by (simp add: accumulate_background_power_def Let_def split: prod.splits)

lemma powerdown_energy_finalize [simp]:
  "powerdown_energy (result (finalize pc t)) = powerdown_energy (result pc)"
  by (simp add: finalize_def Let_def)

lemma powerdown_energy_process_command:
  assumes "process_command spec pc ct r b cur nxt rw cl bl = Inr (energy, pc')"
  shows "powerdown_energy (result pc') = powerdown_energy (result pc)"
  using assms
  by (auto simp: process_command_def Let_def split: if_splits sum.splits)

subsection \<open>The refresh scenario\<close>

lemma refresh_run:
  assumes "trfi (timing spec) \<le> 1000000000"
    and "command c1 = REF" "timestamp c1 = 0"
    and "command c2 = END_OF_SIMULATION" "timestamp c2 = 10000"
  shows "\<exists>s. run spec \<lparr>commands = [c1, c2]\<rparr> = Inr s \<and> errors s = []
           \<and> refresh_energy (sim_result s) =
               idd5b (power_spec spec) * vdd (power_spec spec) * trfc (timing spec) / 1000"
proof -
  have srt: "sort_key timestamp [c1, c2] = [c1, c2]"
    using assms by simp
  have ex: "execute_command spec (update_time (DRAMStateMachine_init spec) 0) c1 r b
      = Inr (execute_refresh spec (update_time (DRAMStateMachine_init spec) 0))" for r b
    using assms by (simp add: execute_command_def)
  have rf: "fst (execute_refresh spec (update_time (DRAMStateMachine_init spec) 0)) = (True, None)"
    using assms by (simp add: execute_refresh_def can_refresh_def update_time_def
        DRAMStateMachine_init_def Let_def)
  obtain sm2 where sm2: "execute_refresh spec (update_time (DRAMStateMachine_init spec) 0)
      = ((True, None), sm2)"
    using rf by (metis prod.collapse)
  have pc: "process_command spec PowerCalculator_init REF r b 0 nt rw cl bl =
     Inr (0 + calculate_refresh_power spec (trfc (timing spec)),
          PowerCalculator_init\<lparr>result := PowerResult_init\<lparr>refresh_energy :=
               0 + calculate_refresh_power spec (trfc (timing spec))\<rparr>,
            refresh_count := 1, pc_last_refresh_time := 0\<rparr>)" for r b nt rw cl bl
    by (simp add: process_command_def Let_def PowerCalculator_init_def PowerResult_init_def
        split: option.splits)
  show ?thesis
    using assms
    by (simp add: run_def simulate_def srt Simulator_init_def ex sm2 pc Let_def sim_result_def
        calculate_refresh_power_def)
qed

lemma refresh_trace_run:
  "\<exists>s. run example_spec refresh_trace = Inr s \<and> errors s = []
        \<and> refresh_energy (sim_result s) = 2464 / 100"
  using refresh_run [of example_spec "mk_command 0 REF" "mk_command 10000 END_OF_SIMULATION"]
  by (simp add: example_spec_def mk_command_def refresh_trace_def)

text \<open>
  C8 (amended). For the trace [refresh at cycle 0, end-of-simulation at cycle 10000], run on a
  new simulator with a datasheet whose refresh interval tREFI is at most \<open>10\<^sup>9\<close> ns (the distance from the initial
  last-refresh time \<open>-10\<^sup>9\<close> to time 0), the refresh is accepted without error and the
  finalized refresh energy is exactly \<open>I_DD5B * V_DD * tRFC / 1000\<close>.
\<close>

theorem refresh_scenario:
  assumes "trfi (timing spec) \<le> 1000000000"
    and "command c1 = REF" "timestamp c1 = 0"
    and "command c2 = END_OF_SIMULATION" "timestamp c2 = 10000"
  shows "\<exists>s. run spec \<lparr>commands = [c1, c2]\<rparr> = Inr s \<and> errors s = []
           \<and> refresh_energy (sim_result s) =
               idd5b (power_spec spec) * vdd (power_spec spec) * trfc (timing spec) / 1000"
  using assms by (rule refresh_run)

theorem refresh_scenario_witness:
  "trfi (timing example_spec) \<le> 1000000000
   \<and> command (mk_command 0 REF) = REF \<and> timestamp (mk_command 0 REF) = 0
   \<and> command (mk_command 10000 END_OF_SIMULATION) = END_OF_SIMULATION
   \<and> timestamp (mk_command 10000 END_OF_SIMULATION) = 10000
   \<and> (\<exists>s. run example_spec refresh_trace = Inr s \<and> errors s = []
           \<and> refresh_energy (sim_result s) = 2464 / 100)"
  using refresh_scenario [of example_spec "mk_command 0 REF" "mk_command 10000 END_OF_SIMULATION"]
  by (simp add: example_spec_def mk_command_def refresh_trace_def)

subsection \<open>The empty trace\<close>

text \<open>
  C9. Simulating a workload with no commands on a new simulator raises nothing, records
  exactly the one error "No commands in workload", and returns the all-zero result: the ten
  counters, the derived totals, the duration and the average power are 0.
\<close>

theorem empty_trace_all_zero:
  "\<exists>s. run spec \<lparr>commands = []\<rparr> = Inr s
       \<and> errors s = [No_commands_in_workload]
       \<and> warnings s = []
       \<and> sim_result s = PowerResult_init
       \<and> sim_result s =
           \<lparr>core_energy = 0, interface_energy = 0, total_energy = 0, average_power = 0,
            simulation_time = 0, activation_energy = 0, read_energy = 0, write_energy = 0,
            precharge_energy = 0, refresh_energy = 0, background_active_energy = 0,
            background_precharge_energy = 0, powerdown_energy = 0, termination_energy = 0,
            dynamic_io_energy = 0\<rparr>"
  by (simp add: run_def simulate_def Simulator_init_def sim_result_def
      PowerCalculator_init_def PowerResult_init_def)

subsection \<open>Totals of a completed run\<close>

lemma finalize_sums:
  "total_energy (result (finalize pc t)) =
     core_energy (result (finalize pc t)) + interface_energy (result (finalize pc t))"
  "core_energy (result (finalize pc t)) =
     activation_energy (result (finalize pc t)) + read_energy (result (finalize pc t))
     + write_energy (result (finalize pc t)) + precharge_energy (result (finalize pc t))
     + refresh_energy (result (finalize pc t)) + background_active_energy (result (finalize pc t))
     + background_precharge_energy (result (finalize pc t))
     + powerdown_energy (result (finalize pc t))"
  "interface_energy (result (finalize pc t)) =
     termination_energy (result (finalize pc t)) + dynamic_io_energy (result (finalize pc t))"
  by (simp_all add: finalize_def Let_def)

lemma simulate_nonempty_finalized:
  assumes "simulate spec sim w = Inr s" "commands w \<noteq> []"
  shows "\<exists>pc t. power_calculator s = finalize pc t"
  using assms
  by (fastforce simp: simulate_def Let_def split: sum.splits prod.splits if_splits)

text \<open>
  C4. In the result of every completed run, the total energy is core energy plus interface
  energy, core energy is the sum of the eight core counters, interface energy is
  termination plus dynamic I/O; so the total is the sum of the ten counters (exactly, over
  the reals, hence within 0.1 nJ).
\<close>

theorem completed_run_totals:
  assumes "run spec w = Inr s"
  shows "total_energy (sim_result s) = core_energy (sim_result s) + interface_energy (sim_result s)
    \<and> core_energy (sim_result s) =
        activation_energy (sim_result s) + read_energy (sim_result s) + write_energy (sim_result s)
        + precharge_energy (sim_result s) + refresh_energy (sim_result s)
        + background_active_energy (sim_result s) + background_precharge_energy (sim_result s)
        + powerdown_energy (sim_result s)
    \<and> interface_energy (sim_result s) =
        termination_energy (sim_result s) + dynamic_io_energy (sim_result s)
    \<and> \<bar>total_energy (sim_result s) -
        (activation_energy (sim_result s) + read_energy (sim_result s) + write_energy (sim_result s)
         + precharge_energy (sim_result s) + refresh_energy (sim_result s)
         + background_active_energy (sim_result s) + background_precharge_energy (sim_result s)
         + powerdown_energy (sim_result s) + termination_energy (sim_result s)
         + dynamic_io_energy (sim_result s))\<bar> \<le> 1 / 10"
proof (cases "commands w = []")
  case True
  with assms have "sim_result s = PowerResult_init"
    by (auto simp: run_def simulate_def Simulator_init_def sim_result_def PowerCalculator_init_def)
  then show ?thesis by (simp add: PowerResult_init_def)
next
  case False
  with assms obtain pc t where "power_calculator s = finalize pc t"
    unfolding run_def using simulate_nonempty_finalized by blast
  then have r: "sim_result s = result (finalize pc t)"
    by (simp add: sim_result_def)
  show ?thesis
    unfolding r using finalize_sums [of pc t] by simp
qed

theorem completed_run_totals_witness:
  "\<exists>s. run example_spec refresh_trace = Inr s
     \<and> refresh_energy (sim_result s) = 2464 / 100
     \<and> total_energy (sim_result s) = core_energy (sim_result s) + interface_energy (sim_result s)
     \<and> core_energy (sim_result s) =
        activation_energy (sim_result s) + read_energy (sim_result s) + write_energy (sim_result s)
        + precharge_energy (sim_result s) + refresh_energy (sim_result s)
        + background_active_energy (sim_result s) + background_precharge_energy (sim_result s)
        + powerdown_energy (sim_result s)
     \<and> interface_energy (sim_result s) =
        termination_energy (sim_result s) + dynamic_io_energy (sim_result s)"
proof -
  from refresh_trace_run obtain s where
    s: "run example_spec refresh_trace = Inr s" "refresh_energy (sim_result s) = 2464 / 100"
    by blast
  from completed_run_totals [OF s(1)] s show ?thesis by blast
qed

subsection \<open>Power-down states are never entered\<close>

lemma set_alist_update: "set (AList.update k v al) \<subseteq> insert (k, v) (set al)"
  by (induction al) auto

lemma no_powerdown_init: "no_powerdown (DRAMStateMachine_init spec)"
  by (auto simp: no_powerdown_def DRAMStateMachine_init_def BankStateInfo_init_def)

lemma no_powerdown_update_time: "no_powerdown (update_time sm t) = no_powerdown sm"
  by (simp add: no_powerdown_def update_time_def)

lemma no_powerdown_set_bank:
  assumes "no_powerdown sm" "state info \<noteq> ACTIVE_PDN" "state info \<noteq> PRE_PDN"
  shows "no_powerdown (set_bank_info sm r b info)"
  using assms set_alist_update [of "(r, b)" info "banks sm"]
  unfolding no_powerdown_def set_bank_info_def by fastforce

lemma get_bank_info_state:
  assumes "get_bank_info sm r b = Inr info" "no_powerdown sm"
  shows "state info \<noteq> ACTIVE_PDN \<and> state info \<noteq> PRE_PDN"
proof -
  from assms(1) have "map_of (banks sm) (r, b) = Some info"
    by (simp add: get_bank_info_def split: option.splits)
  then have "((r, b), info) \<in> set (banks sm)" by (rule map_of_SomeD)
  with assms(2) show ?thesis unfolding no_powerdown_def by blast
qed

lemma no_powerdown_activate:
  assumes "execute_activate spec sm r b rw = Inr (res, sm')" "no_powerdown sm"
  shows "no_powerdown sm'"
  using assms
  by (auto simp: execute_activate_def no_powerdown_set_bank split: sum.splits prod.splits bool.splits)

lemma no_powerdown_read:
  assumes "execute_read spec sm r b = Inr (res, sm')" "no_powerdown sm"
  shows "no_powerdown sm'"
  using assms get_bank_info_state [of sm r b]
  by (auto simp: execute_read_def no_powerdown_set_bank split: sum.splits prod.splits bool.splits)

lemma no_powerdown_write:
  assumes "execute_write spec sm r b = Inr (res, sm')" "no_powerdown sm"
  shows "no_powerdown sm'"
  using assms get_bank_info_state [of sm r b]
  by (auto simp: execute_write_def no_powerdown_set_bank split: sum.splits prod.splits bool.splits)

lemma no_powerdown_precharge:
  assumes "execute_precharge spec sm r b = Inr (res, sm')" "no_powerdown sm"
  shows "no_powerdown sm'"
  using assms
  by (auto simp: execute_precharge_def no_powerdown_set_bank split: sum.splits prod.splits bool.splits)

lemma no_powerdown_precharge_all:
  assumes "precharge_all spec r bs acc sm = Inr (res, sm')" "no_powerdown sm"
  shows "no_powerdown sm'"
  using assms
proof (induction bs arbitrary: acc sm)
  case Nil
  then show ?case by simp
next
  case (Cons b bs)
  from Cons.prems(1) obtain s e sm1 where
    step: "execute_precharge spec sm r b = Inr ((s, e), sm1)"
    and rest: "precharge_all spec r bs (if \<not> s then (False, e) else acc) sm1 = Inr (res, sm')"
    by (auto split: sum.splits prod.splits)
  from step Cons.prems(2) have "no_powerdown sm1" by (rule no_powerdown_precharge)
  with rest show ?case by (rule Cons.IH)
qed

lemma no_powerdown_refresh:
  assumes "execute_refresh spec sm = (res, sm')" "no_powerdown sm"
  shows "no_powerdown sm'"
proof (cases "fst (can_refresh spec (current_time sm) (last_refresh_time sm))")
  case False
  with assms show ?thesis
    by (auto simp: execute_refresh_def split: prod.splits bool.splits)
next
  case True
  with assms(1) have b: "banks sm' =
      map (\<lambda>(k, info). (k, finish_refreshing info))
        (map (\<lambda>(k, info). (k, mark_refreshing info)) (banks sm))"
    by (auto simp: execute_refresh_def Let_def split: prod.splits bool.splits)
  have st: "state (finish_refreshing (mark_refreshing info)) \<noteq> ACTIVE_PDN
      \<and> state (finish_refreshing (mark_refreshing info)) \<noteq> PRE_PDN"
    if "state info \<noteq> ACTIVE_PDN \<and> state info \<noteq> PRE_PDN" for info
    using that by (simp add: finish_refreshing_def mark_refreshing_def)
  show ?thesis
    unfolding no_powerdown_def b using assms(2) st
    by (fastforce simp: no_powerdown_def)
qed

lemma no_powerdown_execute_command:
  assumes "execute_command spec sm cmd r b = Inr (res, sm')" "no_powerdown sm"
  shows "no_powerdown sm'"
  using assms
  by (auto simp: execute_command_def split: if_splits option.splits
      dest: no_powerdown_activate no_powerdown_read no_powerdown_write no_powerdown_precharge
        no_powerdown_precharge_all no_powerdown_refresh)

lemma reachable_no_powerdown: "reachable spec sm \<Longrightarrow> no_powerdown sm"
  by (induction rule: reachable.induct)
    (auto simp: no_powerdown_init no_powerdown_update_time dest: no_powerdown_execute_command)

lemma simulate_loop_inv:
  assumes "simulate_loop spec cmds lt sim = Inr (lt', sim')" "loop_inv spec sim"
  shows "loop_inv spec sim'"
  using assms
proof (induction cmds arbitrary: lt sim)
  case Nil
  then show ?case by simp
next
  case (Cons cmd rest)
  let ?cur = "real_of_int (timestamp cmd) * tck (timing spec)"
  let ?r = "case rank cmd of Some v \<Rightarrow> v | None \<Rightarrow> 0"
  let ?b = "case bank cmd of Some v \<Rightarrow> v | None \<Rightarrow> 0"
  let ?sm1 = "update_time (state_machine sim) ?cur"
  let ?pc1 = "if ?cur > lt
              then accumulate_background_power spec (state_machine sim) (power_calculator sim) lt ?cur
              else power_calculator sim"
  show ?case
  proof (cases "command cmd = END_OF_SIMULATION")
    case True
    with Cons.prems show ?thesis by (auto simp: loop_inv_def Let_def)
  next
    case neos: False
    from Cons.prems(2) have r1: "reachable spec ?sm1"
      by (simp add: loop_inv_def reach_time)
    from neos Cons.prems(1) obtain success error sm2 where
      ex: "execute_command spec ?sm1 cmd ?r ?b = Inr ((success, error), sm2)"
      by (auto simp: Let_def split: sum.splits prod.splits)
    have r2: "reachable spec sm2" using r1 ex by (rule reach_exec)
    have p1: "powerdown_energy (result ?pc1) = 0"
      using Cons.prems(2) by (simp add: loop_inv_def)
    show ?thesis
    proof (cases success)
      case False
      with Cons.prems(1) neos ex have
        "simulate_loop spec rest ?cur
           (sim\<lparr>state_machine := sm2, power_calculator := ?pc1,
                errors := errors sim @ [Command_error (command cmd) (timestamp cmd) error]\<rparr>)
         = Inr (lt', sim')"
        by (simp add: Let_def)
      moreover have "loop_inv spec
           (sim\<lparr>state_machine := sm2, power_calculator := ?pc1,
                errors := errors sim @ [Command_error (command cmd) (timestamp cmd) error]\<rparr>)"
        using r2 p1 by (simp add: loop_inv_def)
      ultimately show ?thesis by (rule Cons.IH)
    next
      case True
      let ?nxt = "case rest of nxt # _ \<Rightarrow> real_of_int (timestamp nxt) * tck (timing spec)
                  | [] \<Rightarrow> ?cur + tck (timing spec)"
      from Cons.prems(1) neos ex True obtain energy pc2 where
        pr: "process_command spec ?pc1 (command cmd) ?r ?b ?cur (Some ?nxt) (row cmd)
               (column cmd) (burst_length cmd) = Inr (energy, pc2)"
        and rest: "simulate_loop spec rest ?cur
           (sim\<lparr>state_machine := sm2,
                power_calculator :=
                  pc2\<lparr>result := (result pc2)\<lparr>core_energy := core_energy (result pc2) + energy\<rparr>\<rparr>\<rparr>)
         = Inr (lt', sim')"
        by (auto simp: Let_def split: sum.splits prod.splits)
      have "powerdown_energy (result pc2) = 0"
        using powerdown_energy_process_command [OF pr] p1 by simp
      then have "loop_inv spec
           (sim\<lparr>state_machine := sm2,
                power_calculator :=
                  pc2\<lparr>result := (result pc2)\<lparr>core_energy := core_energy (result pc2) + energy\<rparr>\<rparr>\<rparr>)"
        using r2 by (simp add: loop_inv_def)
      with rest show ?thesis by (rule Cons.IH)
    qed
  qed
qed

lemma loop_inv_init: "loop_inv spec ((Simulator_init spec)\<lparr>errors := [], warnings := []\<rparr>)"
  by (simp add: loop_inv_def Simulator_init_def reach_init PowerCalculator_init_def
      PowerResult_init_def)

lemma run_inv:
  assumes "run spec w = Inr s"
  shows "loop_inv spec s"
proof (cases "commands w = []")
  case True
  with assms loop_inv_init [of spec] show ?thesis
    by (auto simp: run_def simulate_def loop_inv_def)
next
  case False
  with assms obtain lt sim1 where
    lp: "simulate_loop spec (sort_key timestamp (commands w)) 0
           ((Simulator_init spec)\<lparr>errors := [], warnings := []\<rparr>) = Inr (lt, sim1)"
    and s: "\<exists>t. s = sim1\<lparr>power_calculator := finalize (power_calculator sim1) t\<rparr>"
    by (auto simp: run_def simulate_def Let_def split: sum.splits prod.splits)
  from lp loop_inv_init have "loop_inv spec sim1" by (rule simulate_loop_inv)
  with s show ?thesis by (auto simp: loop_inv_def)
qed

text \<open>
  C10. No state machine that a driver can produce has a bank in \<open>ACTIVE_PDN\<close> or
  \<open>PRE_PDN\<close>; power-down-entry and self-refresh-entry commands report success and leave
  the state machine as it is; and after every run that returns, no bank is in a power-down
  state and the power-down energy counter is 0.
\<close>

theorem no_powerdown_ever:
  "(reachable spec sm \<longrightarrow> no_powerdown sm)
   \<and> (command cmd = PDN \<or> command cmd = SR \<longrightarrow>
        execute_command spec sm cmd r b = Inr ((True, None), sm))
   \<and> (run spec w = Inr s \<longrightarrow>
        reachable spec (state_machine s) \<and> no_powerdown (state_machine s)
        \<and> powerdown_energy (sim_result s) = 0)"
proof (intro conjI impI)
  assume "command cmd = PDN \<or> command cmd = SR"
  then show "execute_command spec sm cmd r b = Inr ((True, None), sm)"
    by (auto simp: execute_command_def)
next
  assume "reachable spec sm"
  then show "no_powerdown sm" by (rule reachable_no_powerdown)
next
  assume "run spec w = Inr s"
  then have "loop_inv spec s" by (rule run_inv)
  then show "reachable spec (state_machine s)" "no_powerdown (state_machine s)"
    "powerdown_energy (sim_result s) = 0"
    using reachable_no_powerdown [of spec "state_machine s"]
    by (simp_all add: loop_inv_def sim_result_def)
qed

lemma pdn_trace_run: "\<exists>s. run example_spec pdn_trace = Inr s \<and> errors s = []"
  by (simp add: run_def simulate_def pdn_trace_def mk_command_def Simulator_init_def Let_def
      execute_command_def process_command_def)

theorem no_powerdown_ever_witness:
  "reachable example_spec sm_start \<and> no_powerdown sm_start
   \<and> (command (mk_command 0 PDN) = PDN \<or> command (mk_command 0 PDN) = SR)
   \<and> execute_command example_spec sm_start (mk_command 0 PDN) 0 0 = Inr ((True, None), sm_start)
   \<and> (\<exists>s. run example_spec pdn_trace = Inr s \<and> no_powerdown (state_machine s)
          \<and> powerdown_energy (sim_result s) = 0)"
proof -
  have r: "reachable example_spec sm_start"
    unfolding sm_start_def by (rule reach_init)
  have c: "command (mk_command 0 PDN) = PDN \<or> command (mk_command 0 PDN) = SR"
    by (simp add: mk_command_def)
  obtain s where s: "run example_spec pdn_trace = Inr s"
    using pdn_trace_run by blast
  from no_powerdown_ever [of example_spec sm_start "mk_command 0 PDN" 0 0 pdn_trace s] r c s
  show ?thesis by blast
qed

subsection \<open>Further scenario evaluations\<close>

lemma sm_reopened_run:
  "execute_activate example_spec (update_time sm_precharged 40) 0 0 7 =
     Inr ((True, None),
       \<lparr>banks = [((0, 0), BankStateInfo_init\<lparr>state := ACTIVE, open_row := Some 7,
                            last_activate_time := 40, last_precharge_time := 32\<rparr>),
                 ((0, 1), BankStateInfo_init), ((0, 2), BankStateInfo_init),
                 ((0, 3), BankStateInfo_init)],
        last_refresh_time = - 1000000000, current_time = 40\<rparr>)"
  by (simp add: sm_precharged_eq execute_activate_def get_bank_info_def update_time_def
      can_activate_def BankStateInfo_init_def set_bank_info_def)

lemma sm_reopened_eq:
  "sm_reopened =
       \<lparr>banks = [((0, 0), BankStateInfo_init\<lparr>state := ACTIVE, open_row := Some 7,
                            last_activate_time := 40, last_precharge_time := 32\<rparr>),
                 ((0, 1), BankStateInfo_init), ((0, 2), BankStateInfo_init),
                 ((0, 3), BankStateInfo_init)],
        last_refresh_time = - 1000000000, current_time = 40\<rparr>"
  by (simp add: sm_reopened_def state_after_def sm_reopened_run)

lemma sm_reclosed_run:
  "execute_precharge example_spec (update_time sm_reopened 80) 0 0 =
     Inr ((True, None),
       \<lparr>banks = [((0, 0), BankStateInfo_init\<lparr>last_activate_time := 40, last_precharge_time := 80\<rparr>),
                 ((0, 1), BankStateInfo_init), ((0, 2), BankStateInfo_init),
                 ((0, 3), BankStateInfo_init)],
        last_refresh_time = - 1000000000, current_time = 80\<rparr>)"
  by (simp add: sm_reopened_eq execute_precharge_def get_bank_info_def update_time_def
      can_precharge_def BankStateInfo_init_def set_bank_info_def example_spec_def)

lemma sm_reclosed_eq:
  "sm_reclosed =
       \<lparr>banks = [((0, 0), BankStateInfo_init\<lparr>last_activate_time := 40, last_precharge_time := 80\<rparr>),
                 ((0, 1), BankStateInfo_init), ((0, 2), BankStateInfo_init),
                 ((0, 3), BankStateInfo_init)],
        last_refresh_time = - 1000000000, current_time = 80\<rparr>"
  by (simp add: sm_reclosed_def state_after_def sm_reclosed_run)

lemma sm_written_run:
  "execute_write example_spec (update_time sm_activated 20) 0 0 =
     Inr ((True, None),
       \<lparr>banks = [((0, 0), BankStateInfo_init\<lparr>state := ACTIVE, open_row := Some 512,
                            last_write_time := 20\<rparr>),
                 ((0, 1), BankStateInfo_init), ((0, 2), BankStateInfo_init),
                 ((0, 3), BankStateInfo_init)],
        last_refresh_time = - 1000000000, current_time = 20\<rparr>)"
  by (simp add: sm_activated_eq execute_write_def get_bank_info_def update_time_def
      can_write_def BankStateInfo_init_def set_bank_info_def example_spec_def)

lemma sm_written_eq:
  "sm_written =
       \<lparr>banks = [((0, 0), BankStateInfo_init\<lparr>state := ACTIVE, open_row := Some 512,
                            last_write_time := 20\<rparr>),
                 ((0, 1), BankStateInfo_init), ((0, 2), BankStateInfo_init),
                 ((0, 3), BankStateInfo_init)],
        last_refresh_time = - 1000000000, current_time = 20\<rparr>"
  by (simp add: sm_written_def state_after_def sm_written_run)

lemma sw_start_eq:
  "sw_start =
     \<lparr>banks = [((0, 0), BankStateInfo_init), ((0, 1), BankStateInfo_init),
               ((0, 2), BankStateInfo_init), ((0, 3), BankStateInfo_init)],
      last_refresh_time = - 1000000000, current_time = 0\<rparr>"
  by (simp add: sw_start_def slow_write_spec_def DRAMStateMachine_init_def example_spec_def upto_0_3)

lemma sw_activated_run:
  "execute_activate slow_write_spec (update_time sw_start 0) 0 0 512 =
     Inr ((True, None),
       \<lparr>banks = [((0, 0), BankStateInfo_init\<lparr>state := ACTIVE, open_row := Some 512\<rparr>),
                 ((0, 1), BankStateInfo_init), ((0, 2), BankStateInfo_init),
                 ((0, 3), BankStateInfo_init)],
        last_refresh_time = - 1000000000, current_time = 0\<rparr>)"
  by (simp add: sw_start_eq execute_activate_def get_bank_info_def update_time_def
      can_activate_def BankStateInfo_init_def set_bank_info_def)

lemma sw_activated_eq:
  "sw_activated =
       \<lparr>banks = [((0, 0), BankStateInfo_init\<lparr>state := ACTIVE, open_row := Some 512\<rparr>),
                 ((0, 1), BankStateInfo_init), ((0, 2), BankStateInfo_init),
                 ((0, 3), BankStateInfo_init)],
        last_refresh_time = - 1000000000, current_time = 0\<rparr>"
  by (simp add: sw_activated_def state_after_def sw_activated_run)

lemma sw_written_run:
  "execute_write slow_write_spec (update_time sw_activated 0) 0 0 = Inr ((True, None), sw_activated)"
  by (simp add: sw_activated_eq execute_write_def get_bank_info_def update_time_def
      can_write_def BankStateInfo_init_def set_bank_info_def slow_write_spec_def example_spec_def)

lemma sw_written_eq: "sw_written = sw_activated"
  by (simp add: sw_written_def state_after_def sw_written_run)

subsection \<open>Activate\<close>

text \<open>
  Activate as the code has it. For a bank the state machine knows, activate succeeds if and
  only if the bank is neither \<open>ACTIVE\<close> nor \<open>REFRESHING\<close> and, whenever its last-activate time is
  strictly positive, \<open>current_time - last_activate_time \<ge> tRC\<close>. On success the bank
  becomes \<open>ACTIVE\<close> with the given open row and last-activate time the current time, and
  nothing else changes; on failure nothing changes.
\<close>

theorem activate_iff:
  assumes "get_bank_info sm r b = Inr info"
  shows "(outcome (execute_activate spec sm r b rw) = Inr (True, None)
          \<longleftrightarrow> state info \<noteq> ACTIVE \<and> state info \<noteq> REFRESHING
              \<and> (last_activate_time info > 0
                   \<longrightarrow> current_time sm - last_activate_time info \<ge> trc (timing spec)))
     \<and> (\<forall>e sm'. execute_activate spec sm r b rw = Inr ((True, e), sm') \<longrightarrow>
           map_of (banks sm') =
             (map_of (banks sm))((r, b) \<mapsto>
                info\<lparr>state := ACTIVE, open_row := Some rw, last_activate_time := current_time sm\<rparr>)
           \<and> map fst (banks sm') = map fst (banks sm)
           \<and> last_refresh_time sm' = last_refresh_time sm
           \<and> current_time sm' = current_time sm)
     \<and> (\<forall>e sm'. execute_activate spec sm r b rw = Inr ((False, e), sm') \<longrightarrow> sm' = sm)"
proof -
  from assms have m: "map_of (banks sm) (r, b) = Some info"
    by (simp add: get_bank_info_def split: option.splits)
  then have k: "(r, b) \<in> fst ` set (banks sm)"
    by (metis domI dom_map_of_conv_image_fst)
  show ?thesis
    using assms k
    by (auto simp: outcome_def execute_activate_def can_activate_def set_bank_info_def
        update_conv' update_keys split: if_splits)
qed

theorem activate_iff_witness:
  "get_bank_info (update_time sm_reclosed 100) 0 0 =
     Inr (BankStateInfo_init\<lparr>last_activate_time := 40, last_precharge_time := 80\<rparr>)
   \<and> last_activate_time (BankStateInfo_init\<lparr>last_activate_time := 40, last_precharge_time := 80\<rparr>) > 0
   \<and> current_time (update_time sm_reclosed 100) - 40 \<ge> trc (timing example_spec)
   \<and> outcome (execute_activate example_spec (update_time sm_reclosed 100) 0 0 9) = Inr (True, None)
   \<and> outcome (execute_activate example_spec (update_time sm_reclosed 82) 0 0 9) \<noteq> Inr (True, None)"
proof -
  have g: "get_bank_info (update_time sm_reclosed t) 0 0 =
     Inr (BankStateInfo_init\<lparr>last_activate_time := 40, last_precharge_time := 80\<rparr>)" for t
    by (simp add: sm_reclosed_eq get_bank_info_def update_time_def)
  from activate_iff [OF g, of example_spec 100 9] activate_iff [OF g, of example_spec 82 9] g
  show ?thesis
    by (simp add: BankStateInfo_init_def update_time_def example_spec_def post_init_trc_def)
qed

text \<open>
  At the state machine: a bank activated at 0 ns and precharged at 32 ns is activated again
  at 40 ns, although 40 ns is less than tRC = 45.75 ns, since a last-activate time of 0 is
  read as "never activated".
\<close>

theorem activate_at_zero_counterexample:
  "outcome (execute_activate example_spec (update_time sm_start 0) 0 0 512) = Inr (True, None)
   \<and> outcome (execute_precharge example_spec (update_time sm_activated 32) 0 0) = Inr (True, None)
   \<and> state_after (execute_precharge example_spec (update_time sm_activated 32) 0 0) = sm_precharged
   \<and> current_time (update_time sm_precharged 40) - 0 < trc (timing example_spec)
   \<and> outcome (execute_activate example_spec (update_time sm_precharged 40) 0 0 7) = Inr (True, None)"
proof (intro conjI)
  show "outcome (execute_activate example_spec (update_time sm_start 0) 0 0 512) = Inr (True, None)"
    by (simp add: outcome_def sm_activated_run)
  show "outcome (execute_precharge example_spec (update_time sm_activated 32) 0 0) = Inr (True, None)"
    by (simp add: outcome_def sm_precharged_run)
  show "state_after (execute_precharge example_spec (update_time sm_activated 32) 0 0) = sm_precharged"
    by (simp add: sm_precharged_def)
  show "current_time (update_time sm_precharged 40) - 0 < trc (timing example_spec)"
    by (simp add: update_time_def example_spec_def post_init_trc_def)
  show "outcome (execute_activate example_spec (update_time sm_precharged 40) 0 0 7) = Inr (True, None)"
    by (simp add: outcome_def sm_reopened_run)
qed

subsection \<open>Precharge\<close>

text \<open>
  C7 (amended). For a bank the state machine knows, precharge succeeds if and only if the
  bank is neither \<open>IDLE\<close> nor \<open>REFRESHING\<close>, and \<open>current_time - last_activate_time \<ge> tRAS\<close>
  when it is \<open>ACTIVE\<close> with a non-negative last-activate time, and
  \<open>current_time - last_write_time \<ge> tWR\<close> when its last-write time is strictly positive.
  It fails on an \<open>IDLE\<close> or \<open>REFRESHING\<close> bank. On success the bank becomes \<open>IDLE\<close>, the
  open row is cleared, the last-precharge time is the current time and nothing else
  changes; on failure nothing changes.
\<close>

theorem precharge_iff:
  assumes "get_bank_info sm r b = Inr info"
  shows "(outcome (execute_precharge spec sm r b) = Inr (True, None)
          \<longleftrightarrow> state info \<noteq> IDLE \<and> state info \<noteq> REFRESHING
              \<and> (state info = ACTIVE \<and> last_activate_time info \<ge> 0
                   \<longrightarrow> current_time sm - last_activate_time info \<ge> tras (timing spec))
              \<and> (last_write_time info > 0
                   \<longrightarrow> current_time sm - last_write_time info \<ge> twr (timing spec)))
     \<and> (state info = IDLE \<or> state info = REFRESHING
           \<longrightarrow> (\<exists>e. execute_precharge spec sm r b = Inr ((False, Some e), sm)))
     \<and> (\<forall>e sm'. execute_precharge spec sm r b = Inr ((True, e), sm') \<longrightarrow>
           map_of (banks sm') =
             (map_of (banks sm))((r, b) \<mapsto>
                info\<lparr>state := IDLE, open_row := None, last_precharge_time := current_time sm\<rparr>)
           \<and> map fst (banks sm') = map fst (banks sm)
           \<and> last_refresh_time sm' = last_refresh_time sm
           \<and> current_time sm' = current_time sm)
     \<and> (\<forall>e sm'. execute_precharge spec sm r b = Inr ((False, e), sm') \<longrightarrow> sm' = sm)"
proof -
  from assms have m: "map_of (banks sm) (r, b) = Some info"
    by (simp add: get_bank_info_def split: option.splits)
  then have k: "(r, b) \<in> fst ` set (banks sm)"
    by (metis domI dom_map_of_conv_image_fst)
  show ?thesis
    using assms k
    by (auto simp: outcome_def execute_precharge_def can_precharge_def set_bank_info_def
        update_conv' update_keys split: if_splits)
qed

theorem precharge_iff_witness:
  "get_bank_info (update_time sm_written 50) 0 0 =
     Inr (BankStateInfo_init\<lparr>state := ACTIVE, open_row := Some 512, last_write_time := 20\<rparr>)
   \<and> outcome (execute_precharge example_spec (update_time sm_written 50) 0 0) = Inr (True, None)
   \<and> outcome (execute_precharge example_spec (update_time sm_written 33) 0 0) \<noteq> Inr (True, None)
   \<and> get_bank_info sm_precharged 0 0 = Inr (BankStateInfo_init\<lparr>last_precharge_time := 32\<rparr>)
   \<and> (\<exists>e. execute_precharge example_spec sm_precharged 0 0 = Inr ((False, Some e), sm_precharged))"
proof -
  have g: "get_bank_info (update_time sm_written t) 0 0 =
     Inr (BankStateInfo_init\<lparr>state := ACTIVE, open_row := Some 512, last_write_time := 20\<rparr>)" for t
    by (simp add: sm_written_eq get_bank_info_def update_time_def)
  have h: "get_bank_info sm_precharged 0 0 = Inr (BankStateInfo_init\<lparr>last_precharge_time := 32\<rparr>)"
    by (simp add: sm_precharged_eq get_bank_info_def)
  from precharge_iff [OF g, of example_spec 50] precharge_iff [OF g, of example_spec 33]
    precharge_iff [OF h, of example_spec] g h
  show ?thesis
    by (simp add: BankStateInfo_init_def update_time_def example_spec_def)
qed

text \<open>
  C7 as stated fails: with tRCD = 0 and tWR = 50 ns, a bank activated and written at 0 ns
  is precharged at 35 ns, although 35 ns is less than tWR, since a last-write time of 0 is
  read as "never written".
\<close>

theorem precharge_write_at_zero_counterexample:
  "outcome (execute_activate slow_write_spec (update_time sw_start 0) 0 0 512) = Inr (True, None)
   \<and> outcome (execute_write slow_write_spec (update_time sw_activated 0) 0 0) = Inr (True, None)
   \<and> state_after (execute_write slow_write_spec (update_time sw_activated 0) 0 0) = sw_written
   \<and> last_write_time (projr (get_bank_info sw_written 0 0)) = 0
   \<and> current_time (update_time sw_written 35) - 0 < twr (timing slow_write_spec)
   \<and> outcome (execute_precharge slow_write_spec (update_time sw_written 35) 0 0) = Inr (True, None)"
proof (intro conjI)
  show "outcome (execute_activate slow_write_spec (update_time sw_start 0) 0 0 512) = Inr (True, None)"
    by (simp add: outcome_def sw_activated_run)
  show "outcome (execute_write slow_write_spec (update_time sw_activated 0) 0 0) = Inr (True, None)"
    by (simp add: outcome_def sw_written_run)
  show "state_after (execute_write slow_write_spec (update_time sw_activated 0) 0 0) = sw_written"
    by (simp add: sw_written_def)
  show "last_write_time (projr (get_bank_info sw_written 0 0)) = 0"
    by (simp add: sw_written_eq sw_activated_eq get_bank_info_def BankStateInfo_init_def)
  show "current_time (update_time sw_written 35) - 0 < twr (timing slow_write_spec)"
    by (simp add: update_time_def slow_write_spec_def example_spec_def)
  show "outcome (execute_precharge slow_write_spec (update_time sw_written 35) 0 0) = Inr (True, None)"
    by (simp add: outcome_def sw_written_eq sw_activated_eq execute_precharge_def get_bank_info_def
        update_time_def can_precharge_def BankStateInfo_init_def set_bank_info_def
        slow_write_spec_def example_spec_def)
qed

subsection \<open>Dynamic I/O energy of reads and writes\<close>

lemma calculate_io_power_read_value:
  assumes "tck (timing spec) \<noteq> 0"
  shows "calculate_io_power_read spec pc n d = Inr (io_energy spec pc n)"
  using assms by (simp add: calculate_io_power_read_def io_energy_def Let_def)

text \<open>
  C2 (amended). For every read or write command processed with a non-zero burst length
  (the command's own when it is non-zero, else the architecture's) and a non-zero clock
  period, the dynamic I/O energy of the burst is added, together with the core read or
  write energy, into the read-energy counter (for a read) or the write-energy counter (for
  a write); the dynamic-I/O counter is left as it was.
\<close>

theorem io_energy_in_read_write_counters:
  assumes "cmd_type = RD \<or> cmd_type = WR"
    and "burst_or_default spec bl = Some n" "n \<noteq> 0"
    and "tck (timing spec) \<noteq> 0"
  shows "\<exists>energy pc'.
      process_command spec pc cmd_type r b cur nxt rw col bl = Inr (energy, pc')
      \<and> dynamic_io_energy (result pc') = dynamic_io_energy (result pc)
      \<and> (cmd_type = RD \<longrightarrow>
            read_energy (result pc') =
              read_energy (result pc)
              + ((idd4r (power_spec spec) - idd3n (power_spec spec)) * vdd (power_spec spec)
                   * command_duration spec cur nxt / 1000
                 + io_energy spec pc n)
            \<and> write_energy (result pc') = write_energy (result pc))
      \<and> (cmd_type = WR \<longrightarrow>
            write_energy (result pc') =
              write_energy (result pc)
              + ((idd4w (power_spec spec) - idd3n (power_spec spec)) * vdd (power_spec spec)
                   * command_duration spec cur nxt / 1000
                 + io_energy spec pc n)
            \<and> read_energy (result pc') = read_energy (result pc))"
proof -
  have t: "truthy_int (Some n)" using assms(3) by (simp add: truthy_int_def)
  from assms(1) show ?thesis
  proof
    assume "cmd_type = RD"
    then show ?thesis
      using assms(2) t calculate_io_power_read_value [OF assms(4)]
      by (simp add: process_command_def calculate_read_power_def Let_def)
  next
    assume "cmd_type = WR"
    then show ?thesis
      using assms(2) t calculate_io_power_read_value [OF assms(4)]
      by (simp add: process_command_def calculate_write_power_def calculate_io_power_write_def Let_def)
  qed
qed

theorem io_energy_in_read_write_counters_witness:
  "burst_or_default example_spec (Some 16) = Some 16
   \<and> burst_or_default example_spec None = Some 16
   \<and> tck (timing example_spec) \<noteq> 0
   \<and> io_energy example_spec PowerCalculator_init 16 = 1936 / 3125
   \<and> (\<exists>energy pc'.
        process_command example_spec PowerCalculator_init RD 0 0 0 (Some 10) None None (Some 16)
          = Inr (energy, pc')
        \<and> dynamic_io_energy (result pc') = 0
        \<and> read_energy (result pc') = 11 / 10 + 1936 / 3125)
   \<and> (\<exists>energy pc'.
        process_command example_spec PowerCalculator_init WR 0 0 0 (Some 10) None None None
          = Inr (energy, pc')
        \<and> dynamic_io_energy (result pc') = 0
        \<and> write_energy (result pc') = 814 / 1000 + 1936 / 3125)"
proof -
  have b1: "burst_or_default example_spec (Some 16) = Some 16"
    by (simp add: burst_or_default_def truthy_int_def)
  have b2: "burst_or_default example_spec None = Some 16"
    by (simp add: burst_or_default_def truthy_int_def example_spec_def)
  have t: "tck (timing example_spec) \<noteq> 0" by (simp add: example_spec_def)
  have io: "io_energy example_spec PowerCalculator_init 16 = 1936 / 3125"
    by (simp add: io_energy_def example_spec_def PowerCalculator_init_def power2_eq_square)
  have d: "command_duration example_spec 0 (Some 10) = 10"
    by (simp add: command_duration_def)
  have c: "(idd4r (power_spec example_spec) - idd3n (power_spec example_spec))
             * vdd (power_spec example_spec) * 10 / 1000 = 11 / 10"
    "(idd4w (power_spec example_spec) - idd3n (power_spec example_spec))
             * vdd (power_spec example_spec) * 10 / 1000 = 814 / 1000"
    by (simp_all add: example_spec_def)
  have z: "dynamic_io_energy (result PowerCalculator_init) = 0"
    "read_energy (result PowerCalculator_init) = 0" "write_energy (result PowerCalculator_init) = 0"
    by (simp_all add: PowerCalculator_init_def PowerResult_init_def)
  from io_energy_in_read_write_counters [of RD example_spec "Some 16" 16 PowerCalculator_init 0 0 0 "Some 10" None None]
    io_energy_in_read_write_counters [of WR example_spec None 16 PowerCalculator_init 0 0 0 "Some 10" None None]
    b1 b2 t io
  show ?thesis
    by (simp add: d c z) blast
qed

text \<open>
  C2 as stated fails: after a read of burst length 16 over 10 ns on a new calculator the
  dynamic-I/O counter is still 0, while the dynamic I/O energy of the burst, 0.61952 nJ,
  is part of the read-energy counter.
\<close>

theorem dynamic_io_counter_counterexample:
  "process_command example_spec PowerCalculator_init RD 0 0 0 (Some 10) None None (Some 16) =
     Inr (11 / 10 + 1936 / 3125 + 121 / 9600,
          PowerCalculator_init\<lparr>result := PowerResult_init
             \<lparr>read_energy := 11 / 10 + 1936 / 3125, termination_energy := 121 / 9600\<rparr>\<rparr>)
   \<and> dynamic_io_energy (result (PowerCalculator_init\<lparr>result := PowerResult_init
             \<lparr>read_energy := 11 / 10 + 1936 / 3125, termination_energy := 121 / 9600\<rparr>\<rparr>)) = 0
   \<and> io_energy example_spec PowerCalculator_init 16 = 1936 / 3125
   \<and> (0::real) \<noteq> 0 + 1936 / 3125"
  by (simp add: process_command_def calculate_read_power_def calculate_io_power_read_def
      calculate_termination_power_def burst_or_default_def truthy_int_def command_duration_def
      io_energy_def Let_def example_spec_def PowerCalculator_init_def PowerResult_init_def
      power2_eq_square)

subsection \<open>The precharge-all loop\<close>

lemma execute_precharge_cases:
  "execute_precharge spec sm r b =
     (case map_of (banks sm) (r, b) of
        None \<Rightarrow> Inl KeyError
      | Some info \<Rightarrow>
          if fst (can_precharge spec info (current_time sm))
          then Inr ((True, None),
                 set_bank_info sm r b
                   (info\<lparr>state := IDLE, open_row := None, last_precharge_time := current_time sm\<rparr>))
          else Inr (can_precharge spec info (current_time sm), sm))"
  by (auto simp: execute_precharge_def get_bank_info_def split: option.splits prod.splits bool.splits)

lemma outcome_precharge:
  "outcome (execute_precharge spec sm r b) =
     (case map_of (banks sm) (r, b) of
        None \<Rightarrow> Inl KeyError
      | Some info \<Rightarrow>
          if fst (can_precharge spec info (current_time sm)) then Inr (True, None)
          else Inr (can_precharge spec info (current_time sm)))"
  by (simp add: outcome_def execute_precharge_cases split: option.splits)

lemma outcome_precharge_cong:
  assumes "map_of (banks sm1) (r, b) = map_of (banks sm) (r, b)"
    and "current_time sm1 = current_time sm"
  shows "outcome (execute_precharge spec sm1 r b) = outcome (execute_precharge spec sm r b)"
  using assms by (simp add: outcome_precharge split: option.splits)

lemma can_precharge_fail: "\<not> fst (can_precharge spec info t) \<Longrightarrow> \<exists>e. can_precharge spec info t = (False, Some e)"
  by (auto simp: can_precharge_def split: if_splits)

text \<open>What one precharge does to the state machine.\<close>

lemma execute_precharge_frame:
  assumes "execute_precharge spec sm r b = Inr ((s, e), sm1)"
  shows "current_time sm1 = current_time sm"
    and "last_refresh_time sm1 = last_refresh_time sm"
    and "map fst (banks sm1) = map fst (banks sm)"
    and "k \<noteq> (r, b) \<Longrightarrow> map_of (banks sm1) k = map_of (banks sm) k"
    and "\<not> s \<Longrightarrow> sm1 = sm"
    and "outcome (execute_precharge spec sm r b) = Inr (s, e)"
proof -
  from assms obtain info where m: "map_of (banks sm) (r, b) = Some info"
    by (auto simp: execute_precharge_cases split: option.splits)
  then have k: "(r, b) \<in> fst ` set (banks sm)"
    by (metis domI dom_map_of_conv_image_fst)
  show "current_time sm1 = current_time sm" "last_refresh_time sm1 = last_refresh_time sm"
    using assms m by (auto simp: execute_precharge_cases set_bank_info_def split: if_splits)
  have keys: "map fst (AList.update (r, b) v (banks sm)) = map fst (banks sm)" for v
    using k by (simp add: update_keys)
  show "map fst (banks sm1) = map fst (banks sm)"
    using assms m keys by (auto simp: execute_precharge_cases set_bank_info_def split: if_splits)
  show "k \<noteq> (r, b) \<Longrightarrow> map_of (banks sm1) k = map_of (banks sm) k"
    using assms m by (auto simp: execute_precharge_cases set_bank_info_def update_conv' split: if_splits)
  show "\<not> s \<Longrightarrow> sm1 = sm"
    using assms m by (auto simp: execute_precharge_cases split: if_splits)
  show "outcome (execute_precharge spec sm r b) = Inr (s, e)"
    using assms by (simp add: outcome_def)
qed

lemma execute_precharge_target:
  assumes "execute_precharge spec sm r b = Inr ((s, e), sm1)"
  shows "map_of (banks sm1) (r, b) = map_of (banks (state_after (execute_precharge spec sm r b))) (r, b)"
  using assms by (simp add: state_after_def)

lemma precharge_all_effect:
  assumes "precharge_all spec r bs acc sm = Inr (res, sm')" "distinct bs"
  shows "current_time sm' = current_time sm
    \<and> last_refresh_time sm' = last_refresh_time sm
    \<and> map fst (banks sm') = map fst (banks sm)
    \<and> (\<forall>k. k \<notin> Pair r ` set bs \<longrightarrow> map_of (banks sm') k = map_of (banks sm) k)
    \<and> (\<forall>b \<in> set bs. \<not> isl (execute_precharge spec sm r b)
          \<and> map_of (banks sm') (r, b) =
              map_of (banks (state_after (execute_precharge spec sm r b))) (r, b))
    \<and> last_failure spec sm r bs acc res"
  using assms
proof (induction bs arbitrary: acc sm)
  case Nil
  then show ?case by (simp add: last_failure_def)
next
  case (Cons b bs)
  from Cons.prems(1) obtain s e sm1 where
    step: "execute_precharge spec sm r b = Inr ((s, e), sm1)"
    and rest: "precharge_all spec r bs (if \<not> s then (False, e) else acc) sm1 = Inr (res, sm')"
    by (auto split: sum.splits prod.splits)
  note fr = execute_precharge_frame [OF step]
  from Cons.prems(2) have d: "distinct bs" and nb: "b \<notin> set bs" by simp_all
  note ih = Cons.IH [OF rest d]
  have same: "outcome (execute_precharge spec sm1 r b') = outcome (execute_precharge spec sm r b')"
    and same_st: "map_of (banks (state_after (execute_precharge spec sm1 r b'))) (r, b')
        = map_of (banks (state_after (execute_precharge spec sm r b'))) (r, b')"
    and same_isl: "isl (execute_precharge spec sm1 r b') = isl (execute_precharge spec sm r b')"
    if "b' \<in> set bs" for b'
  proof -
    from that nb have ne: "(r, b') \<noteq> (r, b)" by auto
    have m: "map_of (banks sm1) (r, b') = map_of (banks sm) (r, b')" by (rule fr(4) [OF ne])
    show "outcome (execute_precharge spec sm1 r b') = outcome (execute_precharge spec sm r b')"
      using m fr(1) by (rule outcome_precharge_cong)
    show "map_of (banks (state_after (execute_precharge spec sm1 r b'))) (r, b')
        = map_of (banks (state_after (execute_precharge spec sm r b'))) (r, b')"
      using m fr(1)
      by (auto simp: execute_precharge_cases state_after_def set_bank_info_def update_conv'
          split: option.splits)
    show "isl (execute_precharge spec sm1 r b') = isl (execute_precharge spec sm r b')"
      using m fr(1) by (auto simp: execute_precharge_cases split: option.splits)
  qed
  have c1: "current_time sm' = current_time sm" using ih fr(1) by simp
  have c2: "last_refresh_time sm' = last_refresh_time sm" using ih fr(2) by simp
  have c3: "map fst (banks sm') = map fst (banks sm)" using ih fr(3) by simp
  have c4: "\<forall>k. k \<notin> Pair r ` set (b # bs) \<longrightarrow> map_of (banks sm') k = map_of (banks sm) k"
    using ih fr(4) by auto
  have tb: "map_of (banks sm') (r, b) = map_of (banks sm1) (r, b)"
    using ih nb by auto
  have c5: "\<forall>b' \<in> set (b # bs). \<not> isl (execute_precharge spec sm r b')
          \<and> map_of (banks sm') (r, b') =
              map_of (banks (state_after (execute_precharge spec sm r b'))) (r, b')"
  proof
    fix b' assume "b' \<in> set (b # bs)"
    then consider "b' = b" | "b' \<in> set bs" by auto
    then show "\<not> isl (execute_precharge spec sm r b')
          \<and> map_of (banks sm') (r, b') =
              map_of (banks (state_after (execute_precharge spec sm r b'))) (r, b')"
    proof cases
      case 1
      then show ?thesis using tb step by (simp add: state_after_def)
    next
      case 2
      then show ?thesis using ih same_st [OF 2] same_isl [OF 2] by simp
    qed
  qed
  from ih have lf: "last_failure spec sm1 r bs (if \<not> s then (False, e) else acc) res" by simp
  have c6: "last_failure spec sm r (b # bs) acc res"
    using lf unfolding last_failure_def
  proof (elim disjE exE conjE)
    fix pre b0 post
    assume a: "bs = pre @ b0 # post" "fst res = False"
      "outcome (execute_precharge spec sm1 r b0) = Inr res"
      "\<forall>b'\<in>set post. outcome (execute_precharge spec sm1 r b') = Inr (True, None)"
    have "b # bs = (b # pre) @ b0 # post" using a(1) by simp
    moreover have "outcome (execute_precharge spec sm r b0) = Inr res"
      using a(1,3) same [of b0] by simp
    moreover have "\<forall>b'\<in>set post. outcome (execute_precharge spec sm r b') = Inr (True, None)"
      using a(1,4) same by simp
    ultimately show "(\<exists>pre ba post. b # bs = pre @ ba # post \<and> fst res = False
        \<and> outcome (execute_precharge spec sm r ba) = Inr res
        \<and> (\<forall>b' \<in> set post. outcome (execute_precharge spec sm r b') = Inr (True, None)))
     \<or> (res = acc \<and> (\<forall>b' \<in> set (b # bs). outcome (execute_precharge spec sm r b') = Inr (True, None)))"
      using a(2) by blast
  next
    assume a: "res = (if \<not> s then (False, e) else acc)"
      "\<forall>b'\<in>set bs. outcome (execute_precharge spec sm1 r b') = Inr (True, None)"
    have all: "\<forall>b'\<in>set bs. outcome (execute_precharge spec sm r b') = Inr (True, None)"
      using a(2) same by simp
    show "(\<exists>pre ba post. b # bs = pre @ ba # post \<and> fst res = False
        \<and> outcome (execute_precharge spec sm r ba) = Inr res
        \<and> (\<forall>b' \<in> set post. outcome (execute_precharge spec sm r b') = Inr (True, None)))
     \<or> (res = acc \<and> (\<forall>b' \<in> set (b # bs). outcome (execute_precharge spec sm r b') = Inr (True, None)))"
    proof (cases s)
      case True
      then have "e = None" using step by (auto simp: execute_precharge_cases split: option.splits if_splits)
      with True a(1) all fr(6) show ?thesis by simp
    next
      case False
      with a(1) have "res = (False, e)" by simp
      moreover have "b # bs = [] @ b # bs" by simp
      ultimately show ?thesis using all fr(6) False by (metis fst_conv)
    qed
  qed
  from c1 c2 c3 c4 c5 c6 show ?case by blast
qed

lemma upto_split_after:
  assumes "[0 .. n - 1] = pre @ b # post" "b < j" "j < (n::int)"
  shows "j \<in> set post"
proof -
  have "sorted (pre @ b # post)" using assms(1) sorted_upto [of 0 "n - 1"] by simp
  then have le: "\<forall>x \<in> set pre. x \<le> b" by (simp add: sorted_append)
  have "0 \<le> b" using assms(1) set_upto [of 0 "n - 1"] by (metis atLeastAtMost_iff in_set_conv_decomp)
  then have "j \<in> set [0 .. n - 1]" using assms(2,3) by simp
  then have "j \<in> set pre \<or> j = b \<or> j \<in> set post" unfolding assms(1) by auto
  with le assms(2) show ?thesis by auto
qed

lemma precharge_target_effect:
  assumes "map_of (banks sm) (r, i) = Some info"
  shows "map_of (banks (state_after (execute_precharge spec sm r i))) (r, i) =
     Some (if outcome (execute_precharge spec sm r i) = Inr (True, None)
           then info\<lparr>state := IDLE, open_row := None, last_precharge_time := current_time sm\<rparr>
           else info)"
proof (cases "fst (can_precharge spec info (current_time sm))")
  case True
  with assms show ?thesis
    by (simp add: execute_precharge_cases outcome_def state_after_def set_bank_info_def update_conv')
next
  case False
  then have "can_precharge spec info (current_time sm) \<noteq> (True, None)" by auto
  with False assms show ?thesis
    by (simp add: execute_precharge_cases outcome_def state_after_def)
qed

lemma prea_early_run:
  "execute_command example_spec (update_time sm_activated 10) (mk_command 32 PREA) 0 0 =
     Inr ((False, Some Bank_already_idle), update_time sm_activated 10)"
  by (simp add: execute_command_def mk_command_def upto_0_3 execute_precharge_cases
      sm_activated_eq update_time_def can_precharge_def BankStateInfo_init_def example_spec_def)

lemma prea_early_first:
  "outcome (execute_precharge example_spec (update_time sm_activated 10) 0 0) =
     Inr (False, Some (tRAS_violation 10 32))"
  by (simp add: outcome_precharge sm_activated_eq update_time_def can_precharge_def
      BankStateInfo_init_def example_spec_def)

lemma prea_late_run:
  "execute_command example_spec (update_time sm_activated 40) (mk_command 128 PREA) 0 0 =
     Inr ((False, Some Bank_already_idle),
       \<lparr>banks = [((0, 0), BankStateInfo_init\<lparr>last_precharge_time := 40\<rparr>),
                 ((0, 1), BankStateInfo_init), ((0, 2), BankStateInfo_init),
                 ((0, 3), BankStateInfo_init)],
        last_refresh_time = - 1000000000, current_time = 40\<rparr>)"
  by (simp add: execute_command_def mk_command_def upto_0_3 execute_precharge_cases
      sm_activated_eq update_time_def can_precharge_def BankStateInfo_init_def example_spec_def
      set_bank_info_def)

lemma prea_trace_run:
  "\<not> isl (run example_spec prea_trace)
   \<and> errors (projr (run example_spec prea_trace)) = [Command_error PREA 150 (Some Bank_already_idle)]
   \<and> map_of (banks (state_machine (projr (run example_spec prea_trace)))) (0, 0)
       = Some (BankStateInfo_init\<lparr>last_precharge_time := 234 / 5\<rparr>)
   \<and> precharge_energy (sim_result (projr (run example_spec prea_trace))) = 0"
  by (simp add: run_def simulate_def prea_trace_def mk_command_def Simulator_init_def Let_def
      execute_command_def process_command_def upto_0_3 execute_precharge_cases execute_activate_def
      get_bank_info_def can_activate_def
      DRAMStateMachine_init_def update_time_def can_precharge_def BankStateInfo_init_def example_spec_def
      set_bank_info_def sim_result_def finalize_def accumulate_background_power_def
      PowerCalculator_init_def PowerResult_init_def calculate_activation_power_def count_state_def
      calculate_background_power_def)
lemma read_idle_run:
  "execute_command example_spec sm_start (mk_command 5 RD) 0 0 =
     Inr ((False, Some Bank_must_be_active_for_read), sm_start)"
  by (simp add: execute_command_def mk_command_def execute_read_def get_bank_info_def
      sm_start_eq can_read_def BankStateInfo_init_def)


text \<open>
  C3 (amended). A precharge-all command that returns has attempted a precharge on every
  bank of the command's rank, whatever happened to the banks before it: each bank is left
  as its own precharge on the state before the command leaves it. The command reports
  success if and only if every bank's precharge is accepted; otherwise it reports failure
  with the error of the last failing bank (the highest-indexed bank whose precharge is
  rejected).
\<close>

theorem precharge_all_reports_last_failure:
  assumes "command cmd = PREA"
    and "execute_command spec sm cmd r b = Inr ((s, e), sm')"
  shows "(\<forall>i. 0 \<le> i \<and> i < nbr_of_banks (architecture spec) \<longrightarrow>
            \<not> isl (execute_precharge spec sm r i)
            \<and> map_of (banks sm') (r, i) =
                map_of (banks (state_after (execute_precharge spec sm r i))) (r, i))
    \<and> (s \<longleftrightarrow> (\<forall>i. 0 \<le> i \<and> i < nbr_of_banks (architecture spec) \<longrightarrow>
                   outcome (execute_precharge spec sm r i) = Inr (True, None)))
    \<and> (\<not> s \<longrightarrow>
          (\<exists>i. 0 \<le> i \<and> i < nbr_of_banks (architecture spec)
             \<and> outcome (execute_precharge spec sm r i) = Inr (False, e)
             \<and> (\<forall>j. i < j \<and> j < nbr_of_banks (architecture spec) \<longrightarrow>
                    outcome (execute_precharge spec sm r j) = Inr (True, None))))"
proof -
  let ?n = "nbr_of_banks (architecture spec)"
  from assms have pa: "precharge_all spec r [0 .. ?n - 1] (True, None) sm = Inr ((s, e), sm')"
    by (simp add: execute_command_def)
  note eff = precharge_all_effect [OF pa distinct_upto]
  have mem: "i \<in> set [0 .. ?n - 1] \<longleftrightarrow> 0 \<le> i \<and> i < ?n" for i by auto
  have c1: "\<forall>i. 0 \<le> i \<and> i < ?n \<longrightarrow>
            \<not> isl (execute_precharge spec sm r i)
            \<and> map_of (banks sm') (r, i) =
                map_of (banks (state_after (execute_precharge spec sm r i))) (r, i)"
    using eff mem by blast
  from eff have lf: "last_failure spec sm r [0 .. ?n - 1] (True, None) (s, e)" by simp
  then show ?thesis unfolding last_failure_def
  proof (elim disjE exE conjE)
    fix pre b0 post
    assume a: "[0 .. ?n - 1] = pre @ b0 # post" "fst (s, e) = False"
      "outcome (execute_precharge spec sm r b0) = Inr (s, e)"
      "\<forall>b'\<in>set post. outcome (execute_precharge spec sm r b') = Inr (True, None)"
    have b0: "0 \<le> b0 \<and> b0 < ?n" using a(1) mem [of b0] by simp
    have s: "\<not> s" using a(2) by simp
    have after: "\<forall>j. b0 < j \<and> j < ?n \<longrightarrow> outcome (execute_precharge spec sm r j) = Inr (True, None)"
      using a(4) upto_split_after [OF a(1)] by blast
    have fail: "outcome (execute_precharge spec sm r b0) = Inr (False, e)" using a(3) s by simp
    then have "\<not> (\<forall>i. 0 \<le> i \<and> i < ?n \<longrightarrow> outcome (execute_precharge spec sm r i) = Inr (True, None))"
      using b0 by auto
    with c1 s b0 fail after show ?thesis by blast
  next
    assume a: "(s, e) = (True, None)"
      "\<forall>b'\<in>set [0 .. ?n - 1]. outcome (execute_precharge spec sm r b') = Inr (True, None)"
    then have "s" and "\<forall>i. 0 \<le> i \<and> i < ?n \<longrightarrow> outcome (execute_precharge spec sm r i) = Inr (True, None)"
      using mem by auto
    with c1 show ?thesis by blast
  qed
qed

theorem precharge_all_reports_last_failure_witness:
  "command (mk_command 32 PREA) = PREA
   \<and> execute_command example_spec (update_time sm_activated 10) (mk_command 32 PREA) 0 0 =
       Inr ((False, Some Bank_already_idle), update_time sm_activated 10)
   \<and> (\<exists>i. 0 \<le> i \<and> i < 4
         \<and> outcome (execute_precharge example_spec (update_time sm_activated 10) 0 i)
             = Inr (False, Some Bank_already_idle)
         \<and> (\<forall>j. i < j \<and> j < 4 \<longrightarrow>
               outcome (execute_precharge example_spec (update_time sm_activated 10) 0 j)
                 = Inr (True, None)))"
proof -
  have c: "command (mk_command 32 PREA) = PREA" by (simp add: mk_command_def)
  have n: "nbr_of_banks (architecture example_spec) = 4" by (simp add: example_spec_def)
  from precharge_all_reports_last_failure [OF c prea_early_run] c prea_early_run
  show ?thesis unfolding n by blast
qed


text \<open>
  C3 as stated fails: with bank 0 open for 10 ns and banks 1 to 3 idle, the first failing
  bank is bank 0 with a tRAS violation, and the command reports "Bank already idle", the
  error of bank 3.
\<close>

theorem first_failure_counterexample:
  "outcome (execute_command example_spec (update_time sm_activated 10) (mk_command 32 PREA) 0 0)
     = Inr (False, Some Bank_already_idle)
   \<and> outcome (execute_precharge example_spec (update_time sm_activated 10) 0 0)
       = Inr (False, Some (tRAS_violation 10 32))
   \<and> Some Bank_already_idle \<noteq> Some (tRAS_violation 10 32)"
proof (intro conjI)
  show "outcome (execute_command example_spec (update_time sm_activated 10) (mk_command 32 PREA) 0 0)
     = Inr (False, Some Bank_already_idle)"
    by (simp add: prea_early_run outcome_def)
  show "outcome (execute_precharge example_spec (update_time sm_activated 10) 0 0)
       = Inr (False, Some (tRAS_violation 10 32))"
    by (rule prea_early_first)
  show "Some Bank_already_idle \<noteq> Some (tRAS_violation 10 32)"
    by simp
qed

subsection \<open>Failed commands\<close>

lemma failed_non_prea_unchanged:
  assumes "execute_command spec sm cmd r b = Inr ((False, e), sm')" "command cmd \<noteq> PREA"
  shows "sm' = sm"
  using assms
  by (auto simp: execute_command_def execute_activate_def execute_read_def execute_write_def
      execute_precharge_def execute_refresh_def Let_def
      split: if_splits option.splits sum.splits prod.splits bool.splits)

text \<open>
  C1 (amended). When the dispatch of a command reports failure, then for every command
  kind other than precharge-all the state machine, and so every bank, is exactly as before.
  For precharge-all, the clock, the last refresh time and the set of banks are as before,
  and every bank is either exactly as before or is a bank of the command's rank whose own
  precharge is legal and which has been precharged (state \<open>IDLE\<close>, no open row,
  last-precharge time the current time).
\<close>

theorem failed_command_state:
  assumes "execute_command spec sm cmd r b = Inr ((False, e), sm')"
  shows "(command cmd \<noteq> PREA \<longrightarrow> sm' = sm)
    \<and> (command cmd = PREA \<longrightarrow>
          current_time sm' = current_time sm
          \<and> last_refresh_time sm' = last_refresh_time sm
          \<and> map fst (banks sm') = map fst (banks sm)
          \<and> (\<forall>k. map_of (banks sm') k = map_of (banks sm) k
                \<or> (\<exists>i info. k = (r, i) \<and> 0 \<le> i \<and> i < nbr_of_banks (architecture spec)
                      \<and> map_of (banks sm) k = Some info
                      \<and> outcome (execute_precharge spec sm r i) = Inr (True, None)
                      \<and> map_of (banks sm') k =
                          Some (info\<lparr>state := IDLE, open_row := None,
                                      last_precharge_time := current_time sm\<rparr>))))"
proof (intro conjI impI)
  assume "command cmd \<noteq> PREA"
  with assms show "sm' = sm" by (rule failed_non_prea_unchanged)
next
  let ?n = "nbr_of_banks (architecture spec)"
  assume "command cmd = PREA"
  with assms have pa: "precharge_all spec r [0 .. ?n - 1] (True, None) sm = Inr ((False, e), sm')"
    by (simp add: execute_command_def)
  note eff = precharge_all_effect [OF pa distinct_upto]
  from eff show "current_time sm' = current_time sm" "last_refresh_time sm' = last_refresh_time sm"
    "map fst (banks sm') = map fst (banks sm)" by simp_all
  show "\<forall>k. map_of (banks sm') k = map_of (banks sm) k
                \<or> (\<exists>i info. k = (r, i) \<and> 0 \<le> i \<and> i < ?n
                      \<and> map_of (banks sm) k = Some info
                      \<and> outcome (execute_precharge spec sm r i) = Inr (True, None)
                      \<and> map_of (banks sm') k =
                          Some (info\<lparr>state := IDLE, open_row := None,
                                      last_precharge_time := current_time sm\<rparr>))"
  proof
    fix k
    show "map_of (banks sm') k = map_of (banks sm) k
                \<or> (\<exists>i info. k = (r, i) \<and> 0 \<le> i \<and> i < ?n
                      \<and> map_of (banks sm) k = Some info
                      \<and> outcome (execute_precharge spec sm r i) = Inr (True, None)
                      \<and> map_of (banks sm') k =
                          Some (info\<lparr>state := IDLE, open_row := None,
                                      last_precharge_time := current_time sm\<rparr>))"
    proof (cases "k \<in> Pair r ` set [0 .. ?n - 1]")
      case False
      with eff show ?thesis by blast
    next
      case True
      then obtain i where i: "k = (r, i)" "0 \<le> i" "i < ?n" by auto
      then have iset: "i \<in> set [0 .. ?n - 1]" by simp
      with eff have ni: "\<not> isl (execute_precharge spec sm r i)"
        and tgt: "map_of (banks sm') (r, i) =
                map_of (banks (state_after (execute_precharge spec sm r i))) (r, i)"
        by blast+
      from ni obtain info where info: "map_of (banks sm) (r, i) = Some info"
        by (auto simp: execute_precharge_cases split: option.splits)
      show ?thesis
        using i info tgt precharge_target_effect [OF info, of spec]
        by (cases "outcome (execute_precharge spec sm r i) = Inr (True, None)") auto
    qed
  qed
qed
theorem failed_command_state_witness:
  "execute_command example_spec sm_start (mk_command 5 RD) 0 0 =
     Inr ((False, Some Bank_must_be_active_for_read), sm_start)
   \<and> command (mk_command 5 RD) \<noteq> PREA
   \<and> command (mk_command 128 PREA) = PREA
   \<and> outcome (execute_command example_spec (update_time sm_activated 40) (mk_command 128 PREA) 0 0)
       = Inr (False, Some Bank_already_idle)
   \<and> current_time (state_after
        (execute_command example_spec (update_time sm_activated 40) (mk_command 128 PREA) 0 0)) = 40
   \<and> (map_of (banks (state_after
          (execute_command example_spec (update_time sm_activated 40) (mk_command 128 PREA) 0 0))) (0, 1)
        = map_of (banks (update_time sm_activated 40)) (0, 1)
       \<or> outcome (execute_precharge example_spec (update_time sm_activated 40) 0 1) = Inr (True, None))"
proof -
  let ?sm = "update_time sm_activated 40"
  let ?sm' = "state_after (execute_command example_spec ?sm (mk_command 128 PREA) 0 0)"
  have run: "execute_command example_spec ?sm (mk_command 128 PREA) 0 0 =
      Inr ((False, Some Bank_already_idle), ?sm')"
    by (simp add: prea_late_run state_after_def)
  have c: "command (mk_command 128 PREA) = PREA" "command (mk_command 5 RD) \<noteq> PREA"
    by (simp_all add: mk_command_def)
  from failed_command_state [OF run] c(1)
  have "current_time ?sm' = current_time ?sm"
    and "map_of (banks ?sm') (0, 1) = map_of (banks ?sm) (0, 1)
       \<or> outcome (execute_precharge example_spec ?sm 0 1) = Inr (True, None)"
    by blast+
  moreover have "current_time ?sm = 40" by (simp add: update_time_def)
  moreover have "outcome (execute_command example_spec ?sm (mk_command 128 PREA) 0 0)
       = Inr (False, Some Bank_already_idle)"
    by (simp add: prea_late_run outcome_def)
  ultimately show ?thesis
    using failed_command_state [OF read_idle_run] read_idle_run c by simp
qed


text \<open>
  C1 as stated fails: a precharge-all at 40 ns with bank 0 open and banks 1 to 3 idle
  reports failure ("Bank already idle") and has precharged bank 0; in the run of the
  driver the error is recorded, no precharge energy is charged and bank 0 ends idle.
\<close>

theorem failed_precharge_all_counterexample:
  "outcome (execute_command example_spec (update_time sm_activated 40) (mk_command 128 PREA) 0 0)
     = Inr (False, Some Bank_already_idle)
   \<and> map_of (banks (update_time sm_activated 40)) (0, 0)
       = Some (BankStateInfo_init\<lparr>state := ACTIVE, open_row := Some 512\<rparr>)
   \<and> map_of (banks (state_after
         (execute_command example_spec (update_time sm_activated 40) (mk_command 128 PREA) 0 0))) (0, 0)
       = Some (BankStateInfo_init\<lparr>last_precharge_time := 40\<rparr>)
   \<and> BankStateInfo_init\<lparr>state := ACTIVE, open_row := Some 512\<rparr>
       \<noteq> BankStateInfo_init\<lparr>last_precharge_time := 40\<rparr>
   \<and> \<not> isl (run example_spec prea_trace)
   \<and> errors (projr (run example_spec prea_trace)) = [Command_error PREA 150 (Some Bank_already_idle)]
   \<and> map_of (banks (state_machine (projr (run example_spec prea_trace)))) (0, 0)
       = Some (BankStateInfo_init\<lparr>last_precharge_time := 234 / 5\<rparr>)
   \<and> precharge_energy (sim_result (projr (run example_spec prea_trace))) = 0"
proof (intro conjI)
  show "outcome (execute_command example_spec (update_time sm_activated 40) (mk_command 128 PREA) 0 0)
     = Inr (False, Some Bank_already_idle)"
    by (simp add: prea_late_run outcome_def)
  show "map_of (banks (update_time sm_activated 40)) (0, 0)
       = Some (BankStateInfo_init\<lparr>state := ACTIVE, open_row := Some 512\<rparr>)"
    by (simp add: sm_activated_eq update_time_def)
  show "map_of (banks (state_after
         (execute_command example_spec (update_time sm_activated 40) (mk_command 128 PREA) 0 0))) (0, 0)
       = Some (BankStateInfo_init\<lparr>last_precharge_time := 40\<rparr>)"
    by (simp add: prea_late_run state_after_def)
  show "BankStateInfo_init\<lparr>state := ACTIVE, open_row := Some 512\<rparr>
       \<noteq> BankStateInfo_init\<lparr>last_precharge_time := 40\<rparr>"
    by (simp add: BankStateInfo_init_def)
  show "\<not> isl (run example_spec prea_trace)"
    "errors (projr (run example_spec prea_trace)) = [Command_error PREA 150 (Some Bank_already_idle)]"
    "map_of (banks (state_machine (projr (run example_spec prea_trace)))) (0, 0)
       = Some (BankStateInfo_init\<lparr>last_precharge_time := 234 / 5\<rparr>)"
    "precharge_energy (sim_result (projr (run example_spec prea_trace))) = 0"
    using prea_trace_run by simp_all
qed

subsection \<open>Evaluating runs of the driver\<close>

lemmas run_eval_defs =
  run_def simulate_def mk_command_def bank0_command_def Simulator_init_def Let_def
  execute_command_def process_command_def upto_0_3 execute_precharge_def execute_activate_def
  execute_refresh_def can_refresh_def
  get_bank_info_def can_activate_def DRAMStateMachine_init_def update_time_def can_precharge_def
  BankStateInfo_init_def example_spec_def set_bank_info_def sim_result_def finalize_def
  accumulate_background_power_def PowerCalculator_init_def PowerResult_init_def
  calculate_activation_power_def calculate_precharge_power_def calculate_refresh_power_def
  count_state_def calculate_background_power_def post_init_trc_def command_duration_def


text \<open>
  C8 as stated fails: with a refresh interval of \<open>2 * 10\<^sup>9\<close> ns the refresh at time 0 is
  \<open>10\<^sup>9\<close> ns after the initial last-refresh time, is rejected with a tREFI violation, and the
  refresh energy stays 0 instead of 24.64 nJ.
\<close>

theorem refresh_long_interval_counterexample:
  "\<not> isl (run long_refi_spec refresh_trace)
   \<and> errors (projr (run long_refi_spec refresh_trace)) =
        [Command_error REF 0 (Some (tREFI_violation 1000000000 2000000000))]
   \<and> refresh_energy (sim_result (projr (run long_refi_spec refresh_trace))) = 0
   \<and> idd5b (power_spec long_refi_spec) * vdd (power_spec long_refi_spec)
        * trfc (timing long_refi_spec) / 1000 = 2464 / 100"
  by (simp add: run_eval_defs long_refi_spec_def refresh_trace_def)


text \<open>
  C6. The claim asks for \<open>current_time - last_activate_time \<ge> tRC\<close> after every prior
  activate, also one at time 0. The code departs from it at the trace [activate at cycle 0,
  precharge at cycle 103, activate at cycle 129] on the example datasheet: the run records
  no error, although the second activate comes 40.248 ns after the first and tRC is
  45.75 ns. The same trace one cycle later is rejected with that tRC violation.
\<close>

theorem activate_at_zero_trace:
  "\<not> isl (run example_spec reactivate_trace)
   \<and> errors (projr (run example_spec reactivate_trace)) = []
   \<and> real_of_int (129 - 0) * tck (timing example_spec) < trc (timing example_spec)
   \<and> \<not> isl (run example_spec reactivate_trace_shifted)
   \<and> errors (projr (run example_spec reactivate_trace_shifted)) =
        [Command_error ACT 130 (Some (tRC_violation (5031 / 125) (183 / 4)))]
   \<and> real_of_int (130 - 1) * tck (timing example_spec) = 5031 / 125"
proof (intro conjI)
  show "\<not> isl (run example_spec reactivate_trace)"
    "errors (projr (run example_spec reactivate_trace)) = []"
    by (simp_all add: run_eval_defs reactivate_trace_def)
  show "\<not> isl (run example_spec reactivate_trace_shifted)"
    "errors (projr (run example_spec reactivate_trace_shifted)) =
        [Command_error ACT 130 (Some (tRC_violation (5031 / 125) (183 / 4)))]"
    by (simp_all add: run_eval_defs reactivate_trace_shifted_def)
  show "real_of_int (129 - 0) * tck (timing example_spec) < trc (timing example_spec)"
    "real_of_int (130 - 1) * tck (timing example_spec) = 5031 / 125"
    by (simp_all add: example_spec_def post_init_trc_def)
qed

subsection \<open>Order of execution\<close>

lemma error_timestamps_simps [simp]:
  "error_timestamps [] = []"
  "error_timestamps (Command_error c t m # es) = t # error_timestamps es"
  "error_timestamps (No_commands_in_workload # es) = error_timestamps es"
  "error_timestamps (es @ fs) = error_timestamps es @ error_timestamps fs"
  by (simp_all add: error_timestamps_def)

lemma simulate_loop_errors:
  assumes "simulate_loop spec cs lt sim = Inr (lt', sim')" "sorted (map timestamp cs)"
  shows "\<exists>es. errors sim' = errors sim @ es \<and> sorted (error_timestamps es)
           \<and> set (error_timestamps es) \<subseteq> timestamp ` set cs"
  using assms
proof (induction cs arbitrary: lt sim)
  case Nil
  then show ?case by simp
next
  case (Cons cmd rest)
  let ?cur = "real_of_int (timestamp cmd) * tck (timing spec)"
  let ?r = "case rank cmd of Some v \<Rightarrow> v | None \<Rightarrow> 0"
  let ?b = "case bank cmd of Some v \<Rightarrow> v | None \<Rightarrow> 0"
  let ?sm1 = "update_time (state_machine sim) ?cur"
  let ?pc1 = "if ?cur > lt
              then accumulate_background_power spec (state_machine sim) (power_calculator sim) lt ?cur
              else power_calculator sim"
  from Cons.prems(2) have srt: "sorted (map timestamp rest)"
    and le: "\<forall>c \<in> set rest. timestamp cmd \<le> timestamp c" by auto
  show ?case
  proof (cases "command cmd = END_OF_SIMULATION")
    case True
    with Cons.prems(1) have "errors sim' = errors sim" by (auto simp: Let_def)
    then show ?thesis by simp
  next
    case neos: False
    from neos Cons.prems(1) obtain success error sm2 where
      ex: "execute_command spec ?sm1 cmd ?r ?b = Inr ((success, error), sm2)"
      by (auto simp: Let_def split: sum.splits prod.splits)
    show ?thesis
    proof (cases success)
      case False
      let ?ce = "Command_error (command cmd) (timestamp cmd) error"
      let ?sim2 = "sim\<lparr>state_machine := sm2, power_calculator := ?pc1,
                errors := errors sim @ [?ce]\<rparr>"
      from False Cons.prems(1) neos ex have
        "simulate_loop spec rest ?cur ?sim2 = Inr (lt', sim')"
        by (simp add: Let_def)
      from Cons.IH [OF this srt] obtain es where
        es: "errors sim' = errors ?sim2 @ es" "sorted (error_timestamps es)"
          "set (error_timestamps es) \<subseteq> timestamp ` set rest"
        by blast
      have "errors sim' = errors sim @ (?ce # es)" using es(1) by simp
      moreover have "sorted (error_timestamps (?ce # es))"
        using es(2,3) le by auto
      moreover have "set (error_timestamps (?ce # es)) \<subseteq> timestamp ` set (cmd # rest)"
        using es(3) by auto
      ultimately show ?thesis by blast
    next
      case True
      let ?nxt = "case rest of nxt # _ \<Rightarrow> real_of_int (timestamp nxt) * tck (timing spec)
                  | [] \<Rightarrow> ?cur + tck (timing spec)"
      from Cons.prems(1) neos ex True obtain energy pc2 where
        rest: "simulate_loop spec rest ?cur
           (sim\<lparr>state_machine := sm2,
                power_calculator :=
                  pc2\<lparr>result := (result pc2)\<lparr>core_energy := core_energy (result pc2) + energy\<rparr>\<rparr>\<rparr>)
         = Inr (lt', sim')"
        by (auto simp: Let_def split: sum.splits prod.splits)
      from Cons.IH [OF rest srt] show ?thesis by auto
    qed
  qed
qed

lemma precharge_all_current_time:
  "precharge_all spec r bs acc sm = Inr (res, sm') \<Longrightarrow> current_time sm' = current_time sm"
proof (induction bs arbitrary: acc sm)
  case Nil
  then show ?case by simp
next
  case (Cons b bs)
  from Cons.prems obtain s e sm1 where
    step: "execute_precharge spec sm r b = Inr ((s, e), sm1)"
    and rest: "precharge_all spec r bs (if \<not> s then (False, e) else acc) sm1 = Inr (res, sm')"
    by (auto split: sum.splits prod.splits)
  from step have "current_time sm1 = current_time sm"
    by (auto simp: execute_precharge_def set_bank_info_def split: sum.splits prod.splits bool.splits)
  with Cons.IH [OF rest] show ?case by simp
qed

lemma execute_command_current_time:
  assumes "execute_command spec sm cmd r b = Inr (res, sm')"
  shows "current_time sm' = current_time sm"
  using assms
  by (auto simp: execute_command_def execute_activate_def execute_read_def execute_write_def
      execute_precharge_def execute_refresh_def set_bank_info_def Let_def
      dest: precharge_all_current_time
      split: if_splits option.splits sum.splits prod.splits bool.splits)

lemma simulate_loop_clock:
  assumes "simulate_loop spec cs lt sim = Inr (lt', sim')"
  shows "current_time (state_machine sim') =
     (if dispatched cs = [] then current_time (state_machine sim)
      else real_of_int (timestamp (last (dispatched cs))) * tck (timing spec))"
  using assms
proof (induction cs arbitrary: lt sim)
  case Nil
  then show ?case by (simp add: dispatched_def)
next
  case (Cons cmd rest)
  let ?cur = "real_of_int (timestamp cmd) * tck (timing spec)"
  let ?r = "case rank cmd of Some v \<Rightarrow> v | None \<Rightarrow> 0"
  let ?b = "case bank cmd of Some v \<Rightarrow> v | None \<Rightarrow> 0"
  let ?sm1 = "update_time (state_machine sim) ?cur"
  let ?pc1 = "if ?cur > lt
              then accumulate_background_power spec (state_machine sim) (power_calculator sim) lt ?cur
              else power_calculator sim"
  show ?case
  proof (cases "command cmd = END_OF_SIMULATION")
    case True
    with Cons.prems show ?thesis by (auto simp: Let_def dispatched_def)
  next
    case neos: False
    from neos Cons.prems obtain success error sm2 where
      ex: "execute_command spec ?sm1 cmd ?r ?b = Inr ((success, error), sm2)"
      by (auto simp: Let_def split: sum.splits prod.splits)
    have ct: "current_time sm2 = ?cur"
      using execute_command_current_time [OF ex] by (simp add: update_time_def)
    have d: "dispatched (cmd # rest) = cmd # dispatched rest"
      using neos by (simp add: dispatched_def)
    obtain sim2 where
      rest: "simulate_loop spec rest ?cur sim2 = Inr (lt', sim')" and sm: "state_machine sim2 = sm2"
    proof (cases success)
      case False
      with Cons.prems neos ex have
        "simulate_loop spec rest ?cur
           (sim\<lparr>state_machine := sm2, power_calculator := ?pc1,
                errors := errors sim @ [Command_error (command cmd) (timestamp cmd) error]\<rparr>)
         = Inr (lt', sim')"
        by (simp add: Let_def)
      then show ?thesis using that by simp
    next
      case True
      from Cons.prems neos ex True obtain energy pc2 where
        "simulate_loop spec rest ?cur
           (sim\<lparr>state_machine := sm2,
                power_calculator :=
                  pc2\<lparr>result := (result pc2)\<lparr>core_energy := core_energy (result pc2) + energy\<rparr>\<rparr>\<rparr>)
         = Inr (lt', sim')"
        by (auto simp: Let_def split: sum.splits prod.splits)
      then show ?thesis using that by simp
    qed
    from Cons.IH [OF rest] sm ct d show ?thesis by simp
  qed
qed

lemma sorted_last_Max:
  assumes "sorted (map f xs)" "xs \<noteq> []"
  shows "f (last xs) = Max (f ` set xs)"
proof -
  from assms(2) have xs: "xs = butlast xs @ [last xs]" by simp
  have "sorted (map f (butlast xs @ [last xs]))" using assms(1) xs by simp
  then have "\<forall>x \<in> set (butlast xs). f x \<le> f (last xs)"
    by (simp add: sorted_append)
  then have "\<forall>x \<in> set xs. f x \<le> f (last xs)"
    by (metis xs Un_iff order_refl set_append list.set(1) list.set(2) insert_iff empty_iff)
  then show ?thesis
    using assms(2) by (intro Max_eqI [symmetric]) auto
qed

lemma sorted_dispatched:
  "sorted (map timestamp cs) \<Longrightarrow> sorted (map timestamp (dispatched cs))"
  unfolding dispatched_def
  by (metis sorted_append map_append takeWhile_dropWhile_id)

text \<open>
  C5. Simulating a trace gives the same outcome (the whole simulator: all counters,
  duration, average power, errors and warnings) as simulating that trace stably sorted by
  timestamp. The driver runs a trace that is in non-decreasing timestamp order in the order
  given. In every run that returns, the recorded errors are in non-decreasing timestamp
  order, and the state machine's clock ends at the largest timestamp among the commands
  dispatched: the commands are processed in non-decreasing timestamp order whatever the
  order of the input.
\<close>

theorem commands_run_in_timestamp_order:
  "simulate spec sim (w\<lparr>commands := sort_key timestamp (commands w)\<rparr>) = simulate spec sim w
   \<and> run spec (w\<lparr>commands := sort_key timestamp (commands w)\<rparr>) = run spec w
   \<and> (sorted (map timestamp (commands w)) \<and> commands w \<noteq> [] \<longrightarrow>
        simulate spec sim w =
          (case simulate_loop spec (commands w) 0 (sim\<lparr>errors := [], warnings := []\<rparr>) of
             Inl e \<Rightarrow> Inl e
           | Inr (lt, sim1) \<Rightarrow>
               Inr (sim1\<lparr>power_calculator :=
                     finalize (power_calculator sim1)
                       (if lt > 0 then lt
                        else real_of_int (timestamp (last (commands w))) * tck (timing spec))\<rparr>)))
   \<and> (\<forall>s. simulate spec sim w = Inr s \<longrightarrow> sorted (error_timestamps (errors s)))
   \<and> (\<forall>s. simulate spec sim w = Inr s
          \<and> dispatched (sort_key timestamp (commands w)) \<noteq> [] \<longrightarrow>
        current_time (state_machine s) =
          real_of_int (Max (timestamp ` set (dispatched (sort_key timestamp (commands w)))))
            * tck (timing spec))"
proof (intro conjI allI impI)
  have idem: "sort_key timestamp (sort_key timestamp (commands w)) = sort_key timestamp (commands w)"
    by (simp add: sort_key_id_if_sorted)
  have empty: "sort_key timestamp (commands w) = [] \<longleftrightarrow> commands w = []"
    by (metis length_sort length_0_conv)
  show eq: "simulate spec sim (w\<lparr>commands := sort_key timestamp (commands w)\<rparr>) = simulate spec sim w"
    for sim
    by (simp add: simulate_def Let_def idem empty)
  show "run spec (w\<lparr>commands := sort_key timestamp (commands w)\<rparr>) = run spec w"
    by (simp add: run_def eq)
next
  assume "sorted (map timestamp (commands w)) \<and> commands w \<noteq> []"
  then show "simulate spec sim w =
          (case simulate_loop spec (commands w) 0 (sim\<lparr>errors := [], warnings := []\<rparr>) of
             Inl e \<Rightarrow> Inl e
           | Inr (lt, sim1) \<Rightarrow>
               Inr (sim1\<lparr>power_calculator :=
                     finalize (power_calculator sim1)
                       (if lt > 0 then lt
                        else real_of_int (timestamp (last (commands w))) * tck (timing spec))\<rparr>))"
    by (simp add: simulate_def Let_def sort_key_id_if_sorted split: sum.splits prod.splits)
next
  fix s assume s: "simulate spec sim w = Inr s"
  show "sorted (error_timestamps (errors s))"
  proof (cases "commands w = []")
    case True
    with s show ?thesis by (auto simp: simulate_def)
  next
    case False
    with s obtain lt sim1 where
      lp: "simulate_loop spec (sort_key timestamp (commands w)) 0
             (sim\<lparr>errors := [], warnings := []\<rparr>) = Inr (lt, sim1)"
      and e: "errors s = errors sim1"
      by (auto simp: simulate_def Let_def split: sum.splits prod.splits)
    from simulate_loop_errors [OF lp] e show ?thesis by auto
  qed
next
  fix s
  assume a: "simulate spec sim w = Inr s \<and> dispatched (sort_key timestamp (commands w)) \<noteq> []"
  let ?cs = "sort_key timestamp (commands w)"
  from a have ne: "commands w \<noteq> []" by (auto simp: dispatched_def)
  with a obtain lt sim1 where
    lp: "simulate_loop spec ?cs 0 (sim\<lparr>errors := [], warnings := []\<rparr>) = Inr (lt, sim1)"
    and e: "state_machine s = state_machine sim1"
    by (auto simp: simulate_def Let_def split: sum.splits prod.splits)
  have "current_time (state_machine s) =
      real_of_int (timestamp (last (dispatched ?cs))) * tck (timing spec)"
    using simulate_loop_clock [OF lp] a e by simp
  moreover have "timestamp (last (dispatched ?cs)) = Max (timestamp ` set (dispatched ?cs))"
    using a by (intro sorted_last_Max sorted_dispatched) simp_all
  ultimately show "current_time (state_machine s) =
          real_of_int (Max (timestamp ` set (dispatched ?cs))) * tck (timing spec)"
    by simp
qed

lemma out_of_order_sorted:
  "sort_key timestamp (commands out_of_order_trace) =
     [bank0_command 10 WR None, bank0_command 20 RD None]"
  by (simp add: out_of_order_trace_def bank0_command_def mk_command_def)

lemma out_of_order_run:
  "\<exists>s. simulate example_spec (Simulator_init example_spec) out_of_order_trace = Inr s
     \<and> errors s = [Command_error WR 10 (Some Bank_must_be_active_for_write),
                   Command_error RD 20 (Some Bank_must_be_active_for_read)]"
  by (simp add: run_eval_defs out_of_order_trace_def execute_read_def execute_write_def
      can_read_def can_write_def)

theorem commands_run_in_timestamp_order_witness:
  "sorted (map timestamp [bank0_command 10 WR None, bank0_command 20 RD None])
   \<and> simulate example_spec (Simulator_init example_spec)
        \<lparr>commands = [bank0_command 10 WR None, bank0_command 20 RD None]\<rparr>
       = simulate example_spec (Simulator_init example_spec) out_of_order_trace
   \<and> (\<exists>s. simulate example_spec (Simulator_init example_spec) out_of_order_trace = Inr s
         \<and> errors s = [Command_error WR 10 (Some Bank_must_be_active_for_write),
                       Command_error RD 20 (Some Bank_must_be_active_for_read)]
         \<and> sorted (error_timestamps (errors s))
         \<and> current_time (state_machine s) = real_of_int 20 * tck (timing example_spec))"
proof -
  let ?sim = "Simulator_init example_spec"
  let ?cs = "[bank0_command 10 WR None, bank0_command 20 RD None]"
  have srt: "sorted (map timestamp ?cs)"
    by (simp add: bank0_command_def mk_command_def)
  have w: "out_of_order_trace\<lparr>commands := sort_key timestamp (commands out_of_order_trace)\<rparr>
      = \<lparr>commands = ?cs\<rparr>"
    by (simp add: out_of_order_sorted)
  have d: "dispatched (sort_key timestamp (commands out_of_order_trace)) = ?cs"
    by (simp add: out_of_order_sorted dispatched_def bank0_command_def mk_command_def)
  have m: "Max (timestamp ` set ?cs) = 20"
    by (simp add: bank0_command_def mk_command_def)
  obtain s where s: "simulate example_spec ?sim out_of_order_trace = Inr s"
    "errors s = [Command_error WR 10 (Some Bank_must_be_active_for_write),
                 Command_error RD 20 (Some Bank_must_be_active_for_read)]"
    using out_of_order_run by blast
  note inst = commands_run_in_timestamp_order [of example_spec ?sim out_of_order_trace]
  from inst have "simulate example_spec ?sim \<lparr>commands = ?cs\<rparr>
       = simulate example_spec ?sim out_of_order_trace"
    unfolding w by blast
  moreover from inst s(1) have "sorted (error_timestamps (errors s))" by blast
  moreover from inst s(1) have "current_time (state_machine s) = real_of_int 20 * tck (timing example_spec)"
    unfolding d m by simp
  ultimately show ?thesis using srt s by blast
qed

end
